theory Spec2Isabelle
  imports Complex_Main
begin

section \<open>Python values, exceptions and strings\<close>

text \<open>
  The exceptions that the modelled code and the library calls it makes can raise. Every
  \<^verbatim>\<open>raise\<close> is a value \<open>Inl e\<close> of a sum type; \<^verbatim>\<open>try: ... except Exception\<close> is
  a case distinction on that sum.
\<close>

datatype error =
    KeyError string
  | ValueError
  | TypeError
  | AttributeError
  | IndexError
  | OverflowError
  | RequestException
  | APIError
  | JSONDecodeError

text \<open>
  The values stored in a meeting dictionary (\<^verbatim>\<open>Dict[str, Any]\<close>): the parsers store
  strings and \<^verbatim>\<open>None\<close>.
\<close>

datatype pyval = Str string | NoneVal

type_synonym meeting = "string \<rightharpoonup> pyval"

text \<open>\<^verbatim>\<open>d[k]\<close>: raises \<^verbatim>\<open>KeyError\<close> on a missing key.\<close>

definition getitem :: "(string \<rightharpoonup> 'v) \<Rightarrow> string \<Rightarrow> error + 'v" where
  "getitem d k = (case d k of None \<Rightarrow> Inl (KeyError k) | Some v \<Rightarrow> Inr v)"

text \<open>\<^verbatim>\<open>d.get(k, default)\<close>.\<close>

definition get_default :: "(string \<rightharpoonup> 'v) \<Rightarrow> string \<Rightarrow> 'v \<Rightarrow> 'v" where
  "get_default d k dflt = (case d k of None \<Rightarrow> dflt | Some v \<Rightarrow> v)"

text \<open>What an f-string writes for a value: \<^verbatim>\<open>format(v)\<close>.\<close>

fun format_val :: "pyval \<Rightarrow> string" where
  "format_val (Str s) = s"
| "format_val NoneVal = ''None''"

text \<open>
  \<^verbatim>\<open>str.isspace\<close> on one character. Strings are lists of 8-bit characters; among
  the code points below 256 Python's whitespace is TAB..CR, FS..US, SPACE, NEL and NBSP.
\<close>

definition isspace :: "char \<Rightarrow> bool" where
  "isspace c = (let n = (of_char c :: nat) in
     (9 \<le> n \<and> n \<le> 13) \<or> (28 \<le> n \<and> n \<le> 32) \<or> n = 133 \<or> n = 160)"

text \<open>\<^verbatim>\<open>str.strip()\<close>.\<close>

definition strip :: "string \<Rightarrow> string" where
  "strip s = rev (dropWhile isspace (rev (dropWhile isspace s)))"

text \<open>\<^verbatim>\<open>s.replace('Z', '+00:00')\<close>: every occurrence is replaced.\<close>

definition replace_Z :: "string \<Rightarrow> string" where
  "replace_Z s = concat (map (\<lambda>c. if c = CHR ''Z'' then ''+00:00'' else [c]) s)"

text \<open>ASCII lower-casing, used for the case-insensitive regular expressions.\<close>

definition lower_char :: "char \<Rightarrow> char" where
  "lower_char c =
    (case map_of (zip ''ABCDEFGHIJKLMNOPQRSTUVWXYZ'' ''abcdefghijklmnopqrstuvwxyz'') c of
       None \<Rightarrow> c
     | Some l \<Rightarrow> l)"

text \<open>\<^verbatim>\<open>sub in s\<close>: substring test.\<close>

fun contains :: "string \<Rightarrow> string \<Rightarrow> bool" where
  "contains [] sub = (sub = [])"
| "contains (c # cs) sub = (take (length sub) (c # cs) = sub \<or> contains cs sub)"

text \<open>\<^verbatim>\<open>re.compile(sub, re.I).search(s)\<close> for a pattern \<open>sub\<close> of lower-case letters.\<close>

definition icontains :: "string \<Rightarrow> string \<Rightarrow> bool" where
  "icontains s sub = contains (map lower_char s) sub"

definition isdigit :: "char \<Rightarrow> bool" where
  "isdigit c = (let n = (of_char c :: nat) in 48 \<le> n \<and> n \<le> 57)"

definition digit_val :: "char \<Rightarrow> nat" where
  "digit_val c = (of_char c :: nat) - 48"

text \<open>\<^verbatim>\<open>int(s)\<close> for a string of decimal digits.\<close>

definition int_of_digits :: "string \<Rightarrow> nat" where
  "int_of_digits s = foldl (\<lambda>acc c. 10 * acc + digit_val c) 0 s"

definition all_digits :: "string \<Rightarrow> bool" where
  "all_digits s = list_all isdigit s"

text \<open>\<^verbatim>\<open>'%d' % n\<close>: the decimal digits of a natural number.\<close>

fun digits :: "nat \<Rightarrow> string" where
  "digits n = (if n < 10 then [''0123456789'' ! n]
               else digits (n div 10) @ [''0123456789'' ! (n mod 10)])"

declare digits.simps [simp del]

text \<open>\<^verbatim>\<open>'%0wd' % n\<close>: zero-padded to width \<open>w\<close>.\<close>

definition zfill :: "nat \<Rightarrow> nat \<Rightarrow> string" where
  "zfill w n = replicate (w - length (digits n)) (CHR ''0'') @ digits n"

section \<open>Dates and times (the \<^verbatim>\<open>datetime\<close> module)\<close>

text \<open>
  A \<^verbatim>\<open>datetime\<close> object. \<open>tzinfo\<close> is \<open>None\<close> for a naive value and otherwise the
  UTC offset in microseconds.
\<close>

record datetime =
  year :: nat
  month :: nat
  day :: nat
  hour :: nat
  minute :: nat
  second :: nat
  microsecond :: nat
  tzinfo :: "int option"

definition is_leap :: "nat \<Rightarrow> bool" where
  "is_leap y = (y mod 4 = 0 \<and> (y mod 100 \<noteq> 0 \<or> y mod 400 = 0))"

definition DAYS_IN_MONTH :: "nat list" where
  "DAYS_IN_MONTH = [0, 31, 28, 31, 30, 31, 30, 31, 31, 30, 31, 30, 31]"

definition DAYS_BEFORE_MONTH :: "nat list" where
  "DAYS_BEFORE_MONTH = [0, 0, 31, 59, 90, 120, 151, 181, 212, 243, 273, 304, 334]"

definition days_in_month :: "nat \<Rightarrow> nat \<Rightarrow> nat" where
  "days_in_month y m = (if m = 2 \<and> is_leap y then 29 else DAYS_IN_MONTH ! m)"

definition days_before_year :: "nat \<Rightarrow> nat" where
  "days_before_year y = (let y1 = y - 1 in y1 * 365 + y1 div 4 - y1 div 100 + y1 div 400)"

definition days_before_month :: "nat \<Rightarrow> nat \<Rightarrow> nat" where
  "days_before_month y m = DAYS_BEFORE_MONTH ! m + (if m > 2 \<and> is_leap y then 1 else 0)"

definition ymd2ord :: "nat \<Rightarrow> nat \<Rightarrow> nat \<Rightarrow> nat" where
  "ymd2ord y m d = days_before_year y + days_before_month y m + d"

text \<open>\<^verbatim>\<open>_ord2ymd\<close>: the proleptic Gregorian date of an ordinal \<open>n \<ge> 1\<close>.\<close>

definition ord2ymd :: "nat \<Rightarrow> nat \<times> nat \<times> nat" where
  "ord2ymd n0 =
    (let n = n0 - 1;
         n400 = n div 146097; n = n mod 146097;
         n100 = n div 36524; n = n mod 36524;
         n4 = n div 1461; n = n mod 1461;
         n1 = n div 365; n = n mod 365;
         y = n400 * 400 + 1 + n100 * 100 + n4 * 4 + n1
     in if n1 = 4 \<or> n100 = 4 then (y - 1, 12, 31)
        else
          let leapyear = (n1 = 3 \<and> (n4 \<noteq> 24 \<or> n100 = 3));
              m = (n + 50) div 32;
              preceding = DAYS_BEFORE_MONTH ! m + (if m > 2 \<and> leapyear then 1 else 0)
          in if preceding > n
             then (y, m - 1,
                   n - (preceding - (DAYS_IN_MONTH ! (m - 1)
                                     + (if m - 1 = 2 \<and> leapyear then 1 else 0))) + 1)
             else (y, m, n - preceding + 1))"

definition MAXORDINAL :: nat where
  "MAXORDINAL = 3652059"

definition toordinal :: "datetime \<Rightarrow> nat" where
  "toordinal d = ymd2ord (year d) (month d) (day d)"

text \<open>\<^verbatim>\<open>d.weekday()\<close>: Monday is 0, Sunday is 6.\<close>

definition weekday :: "datetime \<Rightarrow> nat" where
  "weekday d = (toordinal d + 6) mod 7"

text \<open>
  \<^verbatim>\<open>d + timedelta(days=k)\<close>: the date moves by \<open>k\<close> days, the time of day and the
  \<open>tzinfo\<close> stay; \<^verbatim>\<open>OverflowError\<close> outside the supported range of dates.
\<close>

definition add_days :: "datetime \<Rightarrow> int \<Rightarrow> error + datetime" where
  "add_days d k =
    (let n = int (toordinal d) + k
     in if 0 < n \<and> n \<le> int MAXORDINAL
        then (case ord2ymd (nat n) of (y, m, dd) \<Rightarrow> Inr (d\<lparr>year := y, month := m, day := dd\<rparr>))
        else Inl OverflowError)"

text \<open>The tuple that two naive values are compared by.\<close>

definition naive_key :: "datetime \<Rightarrow> nat list" where
  "naive_key d = [year d, month d, day d, hour d, minute d, second d, microsecond d]"

fun lex_less :: "nat list \<Rightarrow> nat list \<Rightarrow> bool" where
  "lex_less (x # xs) (y # ys) = (x < y \<or> (x = y \<and> lex_less xs ys))"
| "lex_less [] (y # ys) = True"
| "lex_less xs [] = False"

text \<open>Microseconds since the start of ordinal day 0, as a naive reading.\<close>

definition micros :: "datetime \<Rightarrow> int" where
  "micros d = (((int (toordinal d) * 24 + int (hour d)) * 60 + int (minute d)) * 60
                 + int (second d)) * 1000000 + int (microsecond d)"

text \<open>
  \<^verbatim>\<open>a < b\<close> on two \<^verbatim>\<open>datetime\<close> values. Two naive values, and two aware values with
  the same offset, are compared field by field; two aware values with different offsets
  are compared as instants; a naive and an aware value cannot be ordered
  (\<^verbatim>\<open>TypeError: can't compare offset-naive and offset-aware datetimes\<close>).
\<close>

definition dt_less :: "datetime \<Rightarrow> datetime \<Rightarrow> error + bool" where
  "dt_less a b =
    (case (tzinfo a, tzinfo b) of
       (None, None) \<Rightarrow> Inr (lex_less (naive_key a) (naive_key b))
     | (Some oa, Some ob) \<Rightarrow>
         Inr (if oa = ob then lex_less (naive_key a) (naive_key b)
              else micros a - oa < micros b - ob)
     | _ \<Rightarrow> Inl TypeError)"

text \<open>\<^verbatim>\<open>a > b\<close> and \<^verbatim>\<open>a <= b\<close>.\<close>

definition dt_greater :: "datetime \<Rightarrow> datetime \<Rightarrow> error + bool" where
  "dt_greater a b = dt_less b a"

definition dt_le :: "datetime \<Rightarrow> datetime \<Rightarrow> error + bool" where
  "dt_le a b = (case dt_less b a of Inl e \<Rightarrow> Inl e | Inr r \<Rightarrow> Inr (\<not> r))"

text \<open>
  \<^verbatim>\<open>d.isoformat()\<close>: \<^verbatim>\<open>YYYY-MM-DDTHH:MM:SS\<close>, then \<^verbatim>\<open>.ffffff\<close> when the microsecond
  is not zero, then the UTC offset of an aware value.
\<close>

definition format_offset :: "int \<Rightarrow> string" where
  "format_offset off =
    (let a = nat \<bar>off\<bar>;
         hh = a div 3600000000; r = a mod 3600000000;
         mm = r div 60000000; ss = r mod 60000000
     in (if off < 0 then ''-'' else ''+'') @ zfill 2 hh @ '':'' @ zfill 2 mm
        @ (if ss \<noteq> 0 then '':'' @ zfill 2 (ss div 1000000) else [])
        @ (if ss mod 1000000 \<noteq> 0 then ''.'' @ zfill 6 (ss mod 1000000) else []))"

definition isoformat :: "datetime \<Rightarrow> string" where
  "isoformat d =
     zfill 4 (year d) @ ''-'' @ zfill 2 (month d) @ ''-'' @ zfill 2 (day d) @ ''T''
     @ zfill 2 (hour d) @ '':'' @ zfill 2 (minute d) @ '':'' @ zfill 2 (second d)
     @ (if microsecond d \<noteq> 0 then ''.'' @ zfill 6 (microsecond d) else [])
     @ (case tzinfo d of None \<Rightarrow> [] | Some off \<Rightarrow> format_offset off)"

text \<open>
  The constructor's range checks (\<^verbatim>\<open>ValueError\<close> when a field is out of range).
\<close>

definition make_datetime ::
  "nat \<Rightarrow> nat \<Rightarrow> nat \<Rightarrow> nat \<Rightarrow> nat \<Rightarrow> nat \<Rightarrow> nat \<Rightarrow> int option \<Rightarrow> error + datetime" where
  "make_datetime y m d hh mm ss us tz =
    (if 1 \<le> y \<and> y \<le> 9999 \<and> 1 \<le> m \<and> m \<le> 12 \<and> 1 \<le> d \<and> d \<le> days_in_month y m
        \<and> hh < 24 \<and> mm < 60 \<and> ss < 60 \<and> us < 1000000
     then Inr \<lparr>year = y, month = m, day = d, hour = hh, minute = mm, second = ss,
               microsecond = us, tzinfo = tz\<rparr>
     else Inl ValueError)"

text \<open>
  \<^verbatim>\<open>datetime.strptime(s, '%m/%d/%Y')\<close>. The directive \<^verbatim>\<open>%m\<close> is the regular
  expression \<^verbatim>\<open>1[0-2]|0[1-9]|[1-9]\<close>, \<^verbatim>\<open>%d\<close> is
  \<^verbatim>\<open>3[0-1]|[1-2]\d|0[1-9]|[1-9]| [1-9]\<close> and \<^verbatim>\<open>%Y\<close> is \<^verbatim>\<open>\d\d\d\d\<close>; the whole
  string has to match, and the date has to exist.
\<close>

definition month_field :: "string \<Rightarrow> nat option" where
  "month_field s =
    (if (length s = 1 \<or> length s = 2) \<and> all_digits s
        \<and> 1 \<le> int_of_digits s \<and> int_of_digits s \<le> 12
     then Some (int_of_digits s) else None)"

definition day_field :: "string \<Rightarrow> nat option" where
  "day_field s =
    (if (length s = 1 \<or> length s = 2) \<and> all_digits s
        \<and> 1 \<le> int_of_digits s \<and> int_of_digits s \<le> 31
     then Some (int_of_digits s)
     else if length s = 2 \<and> hd s = CHR '' '' \<and> all_digits (tl s) \<and> 1 \<le> int_of_digits (tl s)
     then Some (int_of_digits (tl s))
     else None)"

definition year_field :: "string \<Rightarrow> nat option" where
  "year_field s = (if length s = 4 \<and> all_digits s then Some (int_of_digits s) else None)"

definition not_slash :: "char \<Rightarrow> bool" where
  "not_slash c = (c \<noteq> CHR ''/'')"

definition strptime_mdY :: "string \<Rightarrow> error + datetime" where
  "strptime_mdY s =
    (let ms = takeWhile not_slash s; r1 = dropWhile not_slash s
     in if r1 = [] then Inl ValueError
        else
          let ds = takeWhile not_slash (tl r1); r2 = dropWhile not_slash (tl r1)
          in if r2 = [] then Inl ValueError
             else
               (case (month_field ms, day_field ds, year_field (tl r2)) of
                  (Some m, Some d, Some y) \<Rightarrow> make_datetime y m d 0 0 0 0 None
                | _ \<Rightarrow> Inl ValueError))"

text \<open>
  \<^verbatim>\<open>datetime.fromisoformat(s)\<close>, with the grammar of Python 3.7 to 3.10,
  \<^verbatim>\<open>YYYY-MM-DD[*HH[:MM[:SS[.fff[fff]]]][+HH:MM[:SS[.ffffff]]]]\<close>, which is the format
  that \<^verbatim>\<open>isoformat()\<close> writes (later versions accept further ISO 8601 forms). A string
  with an offset gives an aware value.
\<close>

definition two_digits :: "string \<Rightarrow> (nat \<times> string) option" where
  "two_digits s =
    (if 2 \<le> length s \<and> all_digits (take 2 s) then Some (int_of_digits (take 2 s), drop 2 s)
     else None)"

definition parse_hh_mm_ss_ff :: "string \<Rightarrow> error + (nat \<times> nat \<times> nat \<times> nat)" where
  "parse_hh_mm_ss_ff s =
    (case two_digits s of
       None \<Rightarrow> Inl ValueError
     | Some (hh, r1) \<Rightarrow>
         if r1 = [] then Inr (hh, 0, 0, 0)
         else if hd r1 \<noteq> CHR '':'' then Inl ValueError
         else
           (case two_digits (tl r1) of
              None \<Rightarrow> Inl ValueError
            | Some (mm, r2) \<Rightarrow>
                if r2 = [] then Inr (hh, mm, 0, 0)
                else if hd r2 \<noteq> CHR '':'' then Inl ValueError
                else
                  (case two_digits (tl r2) of
                     None \<Rightarrow> Inl ValueError
                   | Some (ss, r3) \<Rightarrow>
                       if r3 = [] then Inr (hh, mm, ss, 0)
                       else if hd r3 \<noteq> CHR ''.'' then Inl ValueError
                       else
                         let f = tl r3
                         in if length f = 3 \<and> all_digits f
                            then Inr (hh, mm, ss, int_of_digits f * 1000)
                            else if length f = 6 \<and> all_digits f
                            then Inr (hh, mm, ss, int_of_digits f)
                            else Inl ValueError)))"

definition not_sign :: "char \<Rightarrow> bool" where
  "not_sign c = (c \<noteq> CHR ''+'' \<and> c \<noteq> CHR ''-'')"

definition parse_tz :: "string \<Rightarrow> error + int option" where
  "parse_tz r =
    (if r = [] then Inr None
     else
       let tzstr = tl r
       in if length tzstr \<noteq> 5 \<and> length tzstr \<noteq> 8 \<and> length tzstr \<noteq> 15 then Inl ValueError
          else
            (case parse_hh_mm_ss_ff tzstr of
               Inl e \<Rightarrow> Inl e
             | Inr (hh, mm, ss, us) \<Rightarrow>
                 let off = ((int hh * 60 + int mm) * 60 + int ss) * 1000000 + int us
                 in if off \<ge> 86400000000 then Inl ValueError
                    else Inr (Some (if hd r = CHR ''-'' then - off else off))))"

definition parse_isoformat_time :: "string \<Rightarrow> error + ((nat \<times> nat \<times> nat \<times> nat) \<times> int option)" where
  "parse_isoformat_time tstr =
    (case parse_hh_mm_ss_ff (takeWhile not_sign tstr) of
       Inl e \<Rightarrow> Inl e
     | Inr comps \<Rightarrow>
         (case parse_tz (dropWhile not_sign tstr) of
            Inl e \<Rightarrow> Inl e
          | Inr tz \<Rightarrow> Inr (comps, tz)))"

definition parse_isoformat_date :: "string \<Rightarrow> error + (nat \<times> nat \<times> nat)" where
  "parse_isoformat_date d =
    (if length d = 10 \<and> all_digits (take 4 d) \<and> d ! 4 = CHR ''-''
        \<and> all_digits (take 2 (drop 5 d)) \<and> d ! 7 = CHR ''-'' \<and> all_digits (drop 8 d)
     then Inr (int_of_digits (take 4 d), int_of_digits (take 2 (drop 5 d)),
               int_of_digits (drop 8 d))
     else Inl ValueError)"

definition fromisoformat :: "string \<Rightarrow> error + datetime" where
  "fromisoformat s =
    (case parse_isoformat_date (take 10 s) of
       Inl e \<Rightarrow> Inl e
     | Inr (y, m, d) \<Rightarrow>
         if length s = 10 then make_datetime y m d 0 0 0 0 None
         else
           (case parse_isoformat_time (drop 11 s) of
              Inl e \<Rightarrow> Inl e
            | Inr ((hh, mm, ss, us), tz) \<Rightarrow> make_datetime y m d hh mm ss us tz))"

section \<open>Parsed HTML (the \<^verbatim>\<open>bs4\<close> objects the scraper reads)\<close>

text \<open>
  A parsed document is a tree of tags and strings. The attributes of a tag are a
  dictionary from attribute names to their text. A \<open>Comment\<close> is a string of a class
  other than \<^verbatim>\<open>NavigableString\<close> (a comment, a declaration, the body of a script):
  a search for strings finds it, and \<^verbatim>\<open>get_text()\<close> leaves it out.
\<close>

datatype node =
    NavigableString string
  | Comment string
  | Tag string "(string \<times> string) list" "node list"

text \<open>All nodes below an element, in document order.\<close>

fun descendants :: "node \<Rightarrow> node list" where
  "descendants (NavigableString s) = []"
| "descendants (Comment s) = []"
| "descendants (Tag n attrs cs) = concat (map (\<lambda>c. c # descendants c) cs)"

text \<open>\<^verbatim>\<open>element[k]\<close>: an attribute of a tag.\<close>

fun elem_getitem :: "node \<Rightarrow> string \<Rightarrow> error + string" where
  "elem_getitem (NavigableString s) k = Inl TypeError"
| "elem_getitem (Comment s) k = Inl TypeError"
| "elem_getitem (Tag n attrs cs) k =
     (case map_of attrs k of None \<Rightarrow> Inl (KeyError k) | Some v \<Rightarrow> Inr v)"

text \<open>
  \<^verbatim>\<open>element.get_text()\<close>: the strings of class \<^verbatim>\<open>NavigableString\<close> below the element,
  concatenated.
\<close>

fun get_text :: "node \<Rightarrow> string" where
  "get_text (NavigableString s) = s"
| "get_text (Comment s) = []"
| "get_text (Tag n attrs cs) = concat (map get_text cs)"

text \<open>
  \<^verbatim>\<open>re.compile(r'\d{1,2}/\d{1,2}/\d{4}').search(s)\<close>: somewhere in \<open>s\<close> there are one
  or two digits, a slash, one or two digits, a slash and four digits.
\<close>

definition date_here :: "nat \<Rightarrow> nat \<Rightarrow> string \<Rightarrow> bool" where
  "date_here a b s =
    (a + b + 6 \<le> length s
     \<and> all_digits (take a s) \<and> s ! a = CHR ''/''
     \<and> all_digits (take b (drop (a + 1) s)) \<and> s ! (a + 1 + b) = CHR ''/''
     \<and> all_digits (take 4 (drop (a + b + 2) s)))"

definition date_at :: "string \<Rightarrow> bool" where
  "date_at s = (date_here 1 1 s \<or> date_here 1 2 s \<or> date_here 2 1 s \<or> date_here 2 2 s)"

fun search_date :: "string \<Rightarrow> bool" where
  "search_date [] = False"
| "search_date (c # cs) = (date_at (c # cs) \<or> search_date cs)"

text \<open>
  \<^verbatim>\<open>element.find(text=re.compile(r'\d{1,2}/\d{1,2}/\d{4}'))\<close>: the first string below
  the element that the pattern matches somewhere, or \<^verbatim>\<open>None\<close>.
\<close>

fun date_strings :: "node list \<Rightarrow> string list" where
  "date_strings [] = []"
| "date_strings (NavigableString s # ns) =
     (if search_date s then s # date_strings ns else date_strings ns)"
| "date_strings (Comment s # ns) =
     (if search_date s then s # date_strings ns else date_strings ns)"
| "date_strings (Tag n attrs cs # ns) = date_strings ns"

fun find_date_text :: "node \<Rightarrow> error + string option" where
  "find_date_text (NavigableString s) = Inl TypeError"
| "find_date_text (Comment s) = Inl TypeError"
| "find_date_text (Tag n attrs cs) =
     Inr (case date_strings (descendants (Tag n attrs cs)) of [] \<Rightarrow> None | t # ts \<Rightarrow> Some t)"

text \<open>
  \<^verbatim>\<open>element.find('a', href=re.compile(r'agenda|pdf', re.I))\<close>: the first anchor below
  the element whose \<^verbatim>\<open>href\<close> contains ``agenda'' or ``pdf'' in any letter case.
\<close>

fun is_agenda_link :: "node \<Rightarrow> bool" where
  "is_agenda_link (NavigableString s) = False"
| "is_agenda_link (Comment s) = False"
| "is_agenda_link (Tag n attrs cs) =
     (n = ''a'' \<and> (case map_of attrs ''href'' of None \<Rightarrow> False
                    | Some h \<Rightarrow> icontains h ''agenda'' \<or> icontains h ''pdf''))"

definition find_agenda_link :: "node \<Rightarrow> node option" where
  "find_agenda_link element = List.find is_agenda_link (descendants element)"

text \<open>
  \<^verbatim>\<open>soup.find_all(['tr', 'div'], class_=re.compile(r'meeting|agenda', re.I))\<close>.
\<close>

fun is_meeting_row :: "node \<Rightarrow> bool" where
  "is_meeting_row (NavigableString s) = False"
| "is_meeting_row (Comment s) = False"
| "is_meeting_row (Tag n attrs cs) =
     ((n = ''tr'' \<or> n = ''div'') \<and> (case map_of attrs ''class'' of None \<Rightarrow> False
                    | Some c \<Rightarrow> icontains c ''meeting'' \<or> icontains c ''agenda''))"

definition find_all_meeting_rows :: "node \<Rightarrow> node list" where
  "find_all_meeting_rows soup = filter is_meeting_row (descendants soup)"

text \<open>\<^verbatim>\<open>soup.find_all('a', href=re.compile(r'MeetingDetail', re.I))\<close>.\<close>

fun is_meeting_link :: "node \<Rightarrow> bool" where
  "is_meeting_link (NavigableString s) = False"
| "is_meeting_link (Comment s) = False"
| "is_meeting_link (Tag n attrs cs) =
     (n = ''a'' \<and> (case map_of attrs ''href'' of None \<Rightarrow> False
                    | Some h \<Rightarrow> icontains h ''meetingdetail''))"

definition find_all_meeting_links :: "node \<Rightarrow> node list" where
  "find_all_meeting_links soup = filter is_meeting_link (descendants soup)"

section \<open>The outside world\<close>

text \<open>
  The program reads the wall clock, fetches pages and calls a remote completion endpoint.
  The world holds what each of these will answer: the \<open>k\<close>-th answer still to come of
  the clock, of the HTTP session (a function of the URL requested) and of the completion
  endpoint (a function of the request). Each operation takes the next answer and moves
  its sequence on, so that two readings of the clock may differ. The world also holds
  \<open>str_of\<close>, the markup that \<^verbatim>\<open>str(element)\<close> writes for an element: the model does not
  fix the writer of the library, and the properties hold for every one.
\<close>

record request =
  model :: string
  content :: string
  max_tokens :: nat
  temperature :: rat

text \<open>
  A completion: for each choice of the response the text of its message, which may be
  \<^verbatim>\<open>None\<close>.
\<close>

type_synonym response = "string option list"

record world =
  clock :: "nat \<Rightarrow> datetime"
  http :: "nat \<Rightarrow> string \<Rightarrow> error + node"
  remote :: "nat \<Rightarrow> request \<Rightarrow> error + response"
  str_of :: "node \<Rightarrow> string"

text \<open>\<^verbatim>\<open>datetime.now()\<close>: a naive value.\<close>

definition datetime_now :: "world \<Rightarrow> datetime \<times> world" where
  "datetime_now w = ((clock w 0)\<lparr>tzinfo := None\<rparr>, w\<lparr>clock := (\<lambda>k. clock w (Suc k))\<rparr>)"

text \<open>
  \<^verbatim>\<open>session.get(url, timeout=30)\<close>, \<^verbatim>\<open>response.raise_for_status()\<close> and
  \<^verbatim>\<open>BeautifulSoup(response.content, 'html.parser')\<close>: the parsed page, or the exception
  that one of the three raised.
\<close>

definition session_get :: "string \<Rightarrow> world \<Rightarrow> (error + node) \<times> world" where
  "session_get url w = (http w 0 url, w\<lparr>http := (\<lambda>k. http w (Suc k))\<rparr>)"

text \<open>\<^verbatim>\<open>client.chat.completions.create(...)\<close>.\<close>

definition chat_completions_create :: "request \<Rightarrow> world \<Rightarrow> (error + response) \<times> world" where
  "chat_completions_create req w = (remote w 0 req, w\<lparr>remote := (\<lambda>k. remote w (Suc k))\<rparr>)"

text \<open>\<^verbatim>\<open>try: body except Exception: handler\<close>.\<close>

definition try_except :: "error + 'a \<Rightarrow> (error \<Rightarrow> 'a) \<Rightarrow> 'a" where
  "try_except body handler = (case body of Inl e \<Rightarrow> handler e | Inr v \<Rightarrow> v)"

section \<open>The scraper (\<^verbatim>\<open>kern_scraper.py\<close>)\<close>

record config =
  base_url :: string
  meetings_path :: string
  name :: string

text \<open>\<^verbatim>\<open>self.sources\<close>, in the order of the dictionary.\<close>

definition sources :: "(string \<times> config) list" where
  "sources =
    [(''county_supervisors'',
      \<lparr>base_url = ''https://kernco.granicus.com'',
       meetings_path = ''/ViewPublished.php?view_id=2'',
       name = ''Kern County Board of Supervisors''\<rparr>),
     (''bakersfield_council'',
      \<lparr>base_url = ''https://bakersfield.legistar.com'',
       meetings_path = ''/Calendar.aspx'',
       name = ''Bakersfield City Council''\<rparr>),
     (''planning_commission'',
      \<lparr>base_url = ''https://kernco.granicus.com'',
       meetings_path = ''/ViewPublished.php?view_id=3'',
       name = ''Kern County Planning Commission''\<rparr>)]"

text \<open>
  \<^verbatim>\<open>week_start <= meeting_date <= week_end\<close>: the second comparison is made only when
  the first holds.
\<close>

definition in_week :: "datetime \<Rightarrow> datetime \<Rightarrow> datetime \<Rightarrow> error + bool" where
  "in_week week_start meeting_date week_end =
    (case dt_le week_start meeting_date of
       Inl e \<Rightarrow> Inl e
     | Inr False \<Rightarrow> Inr False
     | Inr True \<Rightarrow> dt_le meeting_date week_end)"

definition agenda_url_of :: "node \<Rightarrow> error + pyval" where
  "agenda_url_of element =
    (case find_agenda_link element of
       None \<Rightarrow> Inr NoneVal
     | Some agenda_link \<Rightarrow>
         (case elem_getitem agenda_link ''href'' of Inl e \<Rightarrow> Inl e | Inr h \<Rightarrow> Inr (Str h)))"

text \<open>
  \<^verbatim>\<open>_parse_granicus_meeting\<close>. The body of the \<^verbatim>\<open>try\<close> returns a record or
  \<^verbatim>\<open>None\<close>, or raises; the handler returns \<^verbatim>\<open>None\<close>. The argument \<open>to_str\<close> is
  \<^verbatim>\<open>str\<close> on elements.
\<close>

definition parse_granicus_body ::
  "(node \<Rightarrow> string) \<Rightarrow> node \<Rightarrow> config \<Rightarrow> datetime \<Rightarrow> datetime
     \<Rightarrow> error + meeting option" where
  "parse_granicus_body to_str element cfg week_start week_end =
    (case find_date_text element of
       Inl e \<Rightarrow> Inl e
     | Inr None \<Rightarrow> Inr None
     | Inr (Some date_text) \<Rightarrow>
         (case strptime_mdY (strip date_text) of
            Inl e \<Rightarrow> Inl e
          | Inr meeting_date \<Rightarrow>
              (case in_week week_start meeting_date week_end of
                 Inl e \<Rightarrow> Inl e
               | Inr False \<Rightarrow> Inr None
               | Inr True \<Rightarrow>
                   (case agenda_url_of element of
                      Inl e \<Rightarrow> Inl e
                    | Inr agenda_url \<Rightarrow>
                        Inr (Some [''agency'' \<mapsto> Str (name cfg),
                                   ''date'' \<mapsto> Str (isoformat meeting_date),
                                   ''type'' \<mapsto> Str ''Regular Meeting'',
                                   ''agenda_url'' \<mapsto> agenda_url,
                                   ''raw_content'' \<mapsto> Str (to_str element),
                                   ''source'' \<mapsto> Str ''granicus''])))))"

definition parse_granicus_meeting ::
  "(node \<Rightarrow> string) \<Rightarrow> node \<Rightarrow> config \<Rightarrow> datetime \<Rightarrow> datetime \<Rightarrow> meeting option" where
  "parse_granicus_meeting to_str element cfg week_start week_end =
     try_except (parse_granicus_body to_str element cfg week_start week_end) (\<lambda>e. None)"

text \<open>
  \<^verbatim>\<open>_parse_legistar_meeting\<close>. The clock is read once, after the link and its text have
  been taken; \<open>week_start\<close> and \<open>week_end\<close> are not used.
\<close>

definition parse_legistar_meeting ::
  "node \<Rightarrow> config \<Rightarrow> datetime \<Rightarrow> datetime \<Rightarrow> world \<Rightarrow> meeting option \<times> world" where
  "parse_legistar_meeting element cfg week_start week_end w =
    (case elem_getitem element ''href'' of
       Inl e \<Rightarrow> (None, w)
     | Inr meeting_url \<Rightarrow>
         let meeting_title = strip (get_text element);
             (now, w1) = datetime_now w
         in (Some [''agency'' \<mapsto> Str (name cfg),
                   ''date'' \<mapsto> Str (isoformat now),
                   ''type'' \<mapsto> Str ''Regular Meeting'',
                   ''agenda_url'' \<mapsto> Str (base_url cfg @ meeting_url),
                   ''title'' \<mapsto> Str meeting_title,
                   ''source'' \<mapsto> Str ''legistar''], w1))"

text \<open>
  The iterations of \<^verbatim>\<open>_scrape_granicus\<close> and \<^verbatim>\<open>_scrape_legistar\<close> over the elements
  found: a record that the parser returns is appended to \<open>meetings\<close> (the records have
  keys, so \<^verbatim>\<open>if meeting:\<close> holds exactly when the parser did not return \<^verbatim>\<open>None\<close>).
\<close>

fun granicus_rows ::
  "(node \<Rightarrow> string) \<Rightarrow> node list \<Rightarrow> config \<Rightarrow> datetime \<Rightarrow> datetime \<Rightarrow> meeting list
     \<Rightarrow> meeting list" where
  "granicus_rows to_str [] cfg week_start week_end meetings = meetings"
| "granicus_rows to_str (row # rows) cfg week_start week_end meetings =
     (case parse_granicus_meeting to_str row cfg week_start week_end of
        None \<Rightarrow> granicus_rows to_str rows cfg week_start week_end meetings
      | Some meeting \<Rightarrow>
          granicus_rows to_str rows cfg week_start week_end (meetings @ [meeting]))"

fun legistar_links ::
  "node list \<Rightarrow> config \<Rightarrow> datetime \<Rightarrow> datetime \<Rightarrow> meeting list \<Rightarrow> world
     \<Rightarrow> meeting list \<times> world" where
  "legistar_links [] cfg week_start week_end meetings w = (meetings, w)"
| "legistar_links (link # links) cfg week_start week_end meetings w =
     (case parse_legistar_meeting link cfg week_start week_end w of
        (None, w1) \<Rightarrow> legistar_links links cfg week_start week_end meetings w1
      | (Some meeting, w1) \<Rightarrow>
          legistar_links links cfg week_start week_end (meetings @ [meeting]) w1)"

text \<open>
  \<^verbatim>\<open>_scrape_granicus\<close> and \<^verbatim>\<open>_scrape_legistar\<close>: when the fetch raises, the handler
  logs and the (still empty) list is returned.
\<close>

definition scrape_granicus ::
  "config \<Rightarrow> datetime \<Rightarrow> datetime \<Rightarrow> world \<Rightarrow> meeting list \<times> world" where
  "scrape_granicus cfg week_start week_end w =
    (case session_get (base_url cfg @ meetings_path cfg) w of
       (Inl e, w1) \<Rightarrow> ([], w1)
     | (Inr soup, w1) \<Rightarrow>
         (granicus_rows (str_of w1) (find_all_meeting_rows soup) cfg week_start week_end [],
          w1))"

definition scrape_legistar ::
  "config \<Rightarrow> datetime \<Rightarrow> datetime \<Rightarrow> world \<Rightarrow> meeting list \<times> world" where
  "scrape_legistar cfg week_start week_end w =
    (case session_get (base_url cfg @ meetings_path cfg) w of
       (Inl e, w1) \<Rightarrow> ([], w1)
     | (Inr soup, w1) \<Rightarrow>
         legistar_links (find_all_meeting_links soup) cfg week_start week_end [] w1)"

text \<open>\<^verbatim>\<open>_scrape_source\<close>: the dispatch on the base URL.\<close>

definition scrape_source ::
  "string \<Rightarrow> config \<Rightarrow> datetime \<Rightarrow> datetime \<Rightarrow> world \<Rightarrow> (error + meeting list) \<times> world" where
  "scrape_source source_key cfg week_start week_end w =
    (if contains (base_url cfg) ''granicus''
     then (case scrape_granicus cfg week_start week_end w of (ms, w1) \<Rightarrow> (Inr ms, w1))
     else if contains (base_url cfg) ''legistar''
     then (case scrape_legistar cfg week_start week_end w of (ms, w1) \<Rightarrow> (Inr ms, w1))
     else (Inr [], w))"

text \<open>
  \<^verbatim>\<open>scrape_weekly_meetings\<close>: the loop over the sources; a source that raises is
  skipped (\<^verbatim>\<open>continue\<close>).
\<close>

fun scrape_loop ::
  "(string \<times> config) list \<Rightarrow> datetime \<Rightarrow> datetime \<Rightarrow> meeting list \<Rightarrow> world
     \<Rightarrow> meeting list \<times> world" where
  "scrape_loop [] week_start week_end all_meetings w = (all_meetings, w)"
| "scrape_loop ((source_key, source_config) # rest) week_start week_end all_meetings w =
     (case scrape_source source_key source_config week_start week_end w of
        (Inl e, w1) \<Rightarrow> scrape_loop rest week_start week_end all_meetings w1
      | (Inr meetings, w1) \<Rightarrow>
          scrape_loop rest week_start week_end (all_meetings @ meetings) w1)"

definition scrape_weekly_meetings ::
  "datetime \<Rightarrow> datetime \<Rightarrow> world \<Rightarrow> meeting list \<times> world" where
  "scrape_weekly_meetings week_start week_end w = scrape_loop sources week_start week_end [] w"

section \<open>JSON (\<^verbatim>\<open>json.loads\<close>)\<close>

text \<open>
  A decoded JSON document. A number keeps its literal text, and a string that was read
  from a document keeps the text between its quotes, escapes included.
\<close>

datatype json =
    JNull
  | JBool bool
  | JNumber string
  | JString string
  | JArray "json list"
  | JObject "(string \<times> json) list"

text \<open>The decoder skips blanks, tabs, line feeds and carriage returns.\<close>

definition json_space :: "char \<Rightarrow> bool" where
  "json_space c = (c = CHR '' '' \<or> c = CHR 0x09 \<or> c = CHR 0x0A \<or> c = CHR 0x0D)"

definition skip_ws :: "string \<Rightarrow> string" where
  "skip_ws s = dropWhile json_space s"

text \<open>
  \<^verbatim>\<open>scanstring\<close>: a string literal after its opening quote, up to the closing quote.
  A control character, an unknown escape and an incomplete \<^verbatim>\<open>\uXXXX\<close> are errors.
\<close>

definition ishex :: "char \<Rightarrow> bool" where
  "ishex c = (let n = (of_char c :: nat) in
     (48 \<le> n \<and> n \<le> 57) \<or> (65 \<le> n \<and> n \<le> 70) \<or> (97 \<le> n \<and> n \<le> 102))"

fun scanstring :: "string \<Rightarrow> string \<Rightarrow> (string \<times> string) option" where
  "scanstring acc [] = None"
| "scanstring acc (c # cs) =
    (if c = CHR 0x22 then Some (rev acc, cs)
     else if c = CHR 0x5C then
       (case cs of
          [] \<Rightarrow> None
        | e # es \<Rightarrow>
            if e = CHR ''u'' then
              (if 4 \<le> length es \<and> list_all ishex (take 4 es)
               then scanstring (rev (take 4 es) @ e # c # acc) (drop 4 es)
               else None)
            else if e \<in> set [CHR 0x22, CHR 0x5C, CHR ''/'', CHR ''b'', CHR ''f'', CHR ''n'',
                              CHR ''r'', CHR ''t'']
            then scanstring (e # c # acc) es
            else None)
     else if (of_char c :: nat) < 32 then None
     else scanstring (c # acc) cs)"

text \<open>
  A number is \<^verbatim>\<open>-?(0|[1-9]\d*)(\.\d+)?([eE][-+]?\d+)?\<close>, matched at the start of the
  input as far as it goes.
\<close>

definition digits_then :: "string \<Rightarrow> (string \<times> string) option" where
  "digits_then s = (if s \<noteq> [] \<and> isdigit (hd s) then Some (takeWhile isdigit s, dropWhile isdigit s) else None)"

definition minus_sign :: "string \<Rightarrow> string \<times> string" where
  "minus_sign s = (if s \<noteq> [] \<and> hd s = CHR ''-'' then (''-'', tl s) else ([], s))"

definition int_part :: "string \<Rightarrow> (string \<times> string) option" where
  "int_part s = (if s \<noteq> [] \<and> hd s = CHR ''0'' then Some (''0'', tl s) else digits_then s)"

definition frac_part :: "string \<Rightarrow> string \<times> string" where
  "frac_part s =
    (case (if s \<noteq> [] \<and> hd s = CHR ''.'' then digits_then (tl s) else None) of
       None \<Rightarrow> ([], s)
     | Some (ds, r) \<Rightarrow> (CHR ''.'' # ds, r))"

definition exp_sign :: "string \<Rightarrow> string \<times> string" where
  "exp_sign s =
    (if s \<noteq> [] \<and> (hd s = CHR ''+'' \<or> hd s = CHR ''-'') then ([hd s], tl s) else ([], s))"

definition exp_part :: "string \<Rightarrow> string \<times> string" where
  "exp_part s =
    (if s \<noteq> [] \<and> (hd s = CHR ''e'' \<or> hd s = CHR ''E'')
     then
       (case digits_then (snd (exp_sign (tl s))) of
          None \<Rightarrow> ([], s)
        | Some (ds, r) \<Rightarrow> (hd s # fst (exp_sign (tl s)) @ ds, r))
     else ([], s))"

definition scan_number :: "string \<Rightarrow> (string \<times> string) option" where
  "scan_number s =
    (case int_part (snd (minus_sign s)) of
       None \<Rightarrow> None
     | Some (ip, r1) \<Rightarrow>
         Some (fst (minus_sign s) @ ip @ fst (frac_part r1) @ fst (exp_part (snd (frac_part r1))),
               snd (exp_part (snd (frac_part r1)))))"

definition literal :: "string \<Rightarrow> string \<Rightarrow> bool" where
  "literal lit s = (take (length lit) s = lit)"

definition scan_atom :: "string \<Rightarrow> (json \<times> string) option" where
  "scan_atom s =
    (if literal ''null'' s then Some (JNull, drop 4 s)
     else if literal ''true'' s then Some (JBool True, drop 4 s)
     else if literal ''false'' s then Some (JBool False, drop 5 s)
     else
       (case scan_number s of
          Some (n, r) \<Rightarrow> Some (JNumber n, r)
        | None \<Rightarrow>
            if literal ''NaN'' s then Some (JNumber ''NaN'', drop 3 s)
            else if literal ''Infinity'' s then Some (JNumber ''Infinity'', drop 8 s)
            else if literal ''-Infinity'' s then Some (JNumber ''-Infinity'', drop 9 s)
            else None))"

text \<open>
  \<^verbatim>\<open>scan_once\<close>, \<^verbatim>\<open>JSONArray\<close> and \<^verbatim>\<open>JSONObject\<close>: one value, the elements of an
  array after its bracket, and the members of an object after the opening quote of a key.
  Each returns the value with the input that is left. The tests on the length of what is
  left always hold (a value takes at least one character); they make the recursion
  visibly terminate.
\<close>

function scan_once :: "string \<Rightarrow> (json \<times> string) option"
  and JSONArray :: "json list \<Rightarrow> string \<Rightarrow> (json \<times> string) option"
  and JSONObject :: "(string \<times> json) list \<Rightarrow> string \<Rightarrow> (json \<times> string) option"
where
  "scan_once [] = None"
| "scan_once (c # cs) =
    (if c = CHR 0x22 then
       (case scanstring [] cs of None \<Rightarrow> None | Some (b, r) \<Rightarrow> Some (JString b, r))
     else if c = CHR ''{'' then
       (case skip_ws cs of
          [] \<Rightarrow> None
        | d # ds \<Rightarrow>
            if d = CHR 0x22 then JSONObject [] ds
            else if d = CHR ''}'' then Some (JObject [], ds)
            else None)
     else if c = CHR ''['' then
       (case skip_ws cs of
          [] \<Rightarrow> None
        | d # ds \<Rightarrow>
            if d = CHR '']'' then Some (JArray [], ds)
            else JSONArray [] (d # ds))
     else scan_atom (c # cs))"
| "JSONArray vals s =
    (case scan_once s of
       None \<Rightarrow> None
     | Some (v, r) \<Rightarrow>
         if length r < length s then
           (case skip_ws r of
              [] \<Rightarrow> None
            | d # ds \<Rightarrow>
                if d = CHR '']'' then Some (JArray (vals @ [v]), ds)
                else if d = CHR '','' then JSONArray (vals @ [v]) (skip_ws ds)
                else None)
         else None)"
| "JSONObject pairs s =
    (case scanstring [] s of
       None \<Rightarrow> None
     | Some (k, r0) \<Rightarrow>
         (case skip_ws r0 of
            [] \<Rightarrow> None
          | colon # r1 \<Rightarrow>
              if colon \<noteq> CHR '':'' then None
              else if length r1 < Suc (length s) then
                (case scan_once (skip_ws r1) of
                   None \<Rightarrow> None
                 | Some (v, r) \<Rightarrow>
                     if length r < Suc (length s) then
                       (case skip_ws r of
                          [] \<Rightarrow> None
                        | d # ds \<Rightarrow>
                            if d = CHR ''}'' then Some (JObject (pairs @ [(k, v)]), ds)
                            else if d = CHR '','' then
                              (case skip_ws ds of
                                 [] \<Rightarrow> None
                               | q # qs \<Rightarrow>
                                   if q = CHR 0x22 then JSONObject (pairs @ [(k, v)]) qs
                                   else None)
                            else None)
                     else None)
              else None))"
  by pat_completeness auto
termination
  apply (relation "measure (\<lambda>x. case x of
            Inl s \<Rightarrow> 2 * length s
          | Inr (Inl (vals, s)) \<Rightarrow> 2 * length s + 1
          | Inr (Inr (pairs, s)) \<Rightarrow> 2 * length s + 3)")
  apply simp_all
  subgoal for c cs x21 x22
    using length_dropWhile_le [of json_space cs] by (simp add: skip_ws_def)
  subgoal for c cs x21 x22
    using length_dropWhile_le [of json_space cs] by (simp add: skip_ws_def)
  subgoal for s x2 x y x21 x22
    using length_dropWhile_le [of json_space y] length_dropWhile_le [of json_space x22]
    by (simp add: skip_ws_def)
  subgoal for s x2 x y x21 x22
    using length_dropWhile_le [of json_space x22] by (simp add: skip_ws_def)
  subgoal for s x2 x y x21 x22 x2a xa ya x21a x22a x21b x22b
    using length_dropWhile_le [of json_space ya] length_dropWhile_le [of json_space x22a]
    by (simp add: skip_ws_def)
  done

text \<open>\<^verbatim>\<open>json.loads(s)\<close>: one value, with nothing but white space around it.\<close>

definition json_loads :: "string \<Rightarrow> error + json" where
  "json_loads s =
    (case scan_once (skip_ws s) of
       None \<Rightarrow> Inl JSONDecodeError
     | Some (v, r) \<Rightarrow> if skip_ws r = [] then Inr v else Inl JSONDecodeError)"


section \<open>The AI processor (\<^verbatim>\<open>ai_processor.py\<close>)\<close>

definition nl :: string where
  "nl = [CHR 0x0A]"

definition agenda_prompt :: "string \<Rightarrow> string \<Rightarrow> string \<Rightarrow> string" where
  "agenda_prompt agency date raw_content =
     concat [nl,
       ''        Summarize this government meeting agenda in a conversational, podcast-friendly way:'',
       nl, ''        '', nl, ''        Agency: '', agency, nl, ''        Date: '', date, nl,
       ''        Raw content: '', raw_content, nl, ''        '', nl, ''        Focus on:'',
       nl, ''        - What decisions will be made'', nl,
       ''        - How they affect local residents'', nl,
       ''        - Why people should care'', nl, ''        - Keep it under 100 words'', nl,
       ''        - Use everyday language'', nl, ''        '']"

definition minutes_prompt :: "string \<Rightarrow> string \<Rightarrow> string \<Rightarrow> string" where
  "minutes_prompt agency date raw_content =
     concat [nl,
       ''        Summarize what happened in this government meeting in a podcast-friendly way:'',
       nl, ''        '', nl, ''        Agency: '', agency, nl, ''        Date: '', date, nl,
       ''        Content: '', raw_content, nl, ''        '', nl, ''        Focus on:'', nl,
       ''        - What decisions were made'', nl, ''        - Key votes and outcomes'', nl,
       ''        - Impact on residents'', nl, ''        - Keep it under 100 words'', nl,
       ''        - Use past tense'', nl, ''        '']"

definition themes_prompt :: "string \<Rightarrow> string" where
  "themes_prompt all_content =
     concat [nl,
       ''        Analyze these government meetings and identify 2-3 major themes that connect across multiple agencies:'',
       nl, ''        '', nl, ''        '', all_content, nl, ''        '', nl,
       ''        For each theme, provide:'', nl, ''        - Theme name'', nl,
       ''        - Brief description'', nl,
       ''        - Which meetings/agencies are involved'', nl,
       ''        - Why it matters to residents'', nl, ''        '', nl,
       ''        Format as JSON array.'', nl, ''        '']"

text \<open>
  \<^verbatim>\<open>response.choices[0].message.content.strip()\<close>, for a call that may have raised:
  \<^verbatim>\<open>IndexError\<close> without a choice, \<^verbatim>\<open>AttributeError\<close> when the text is \<^verbatim>\<open>None\<close>.
\<close>

definition first_content :: "error + response \<Rightarrow> error + string" where
  "first_content r =
    (case r of
       Inl e \<Rightarrow> Inl e
     | Inr choices \<Rightarrow>
         (case choices of
            [] \<Rightarrow> Inl IndexError
          | c # cs \<Rightarrow> (case c of None \<Rightarrow> Inl AttributeError | Some reply \<Rightarrow> Inr (strip reply))))"

text \<open>
  \<^verbatim>\<open>_is_upcoming\<close>. The clock is read only when the date has been parsed; every
  exception gives \<^verbatim>\<open>False\<close>.
\<close>

definition is_upcoming :: "meeting \<Rightarrow> world \<Rightarrow> bool \<times> world" where
  "is_upcoming meeting w =
    (case getitem meeting ''date'' of
       Inl e \<Rightarrow> (False, w)
     | Inr NoneVal \<Rightarrow> (False, w)
     | Inr (Str s) \<Rightarrow>
         (case fromisoformat (replace_Z s) of
            Inl e \<Rightarrow> (False, w)
          | Inr meeting_date \<Rightarrow>
              let (now, w1) = datetime_now w
              in (try_except (dt_greater meeting_date now) (\<lambda>e. False), w1)))"

text \<open>
  The two list comprehensions of \<^verbatim>\<open>process_meetings\<close>: the records for which
  \<^verbatim>\<open>_is_upcoming\<close> returns \<open>keep\<close>, each call reading the world in turn.
\<close>

fun select_meetings :: "bool \<Rightarrow> meeting list \<Rightarrow> world \<Rightarrow> meeting list \<times> world" where
  "select_meetings keep [] w = ([], w)"
| "select_meetings keep (m # ms) w =
     (let (b, w1) = is_upcoming m w;
          (rest, w2) = select_meetings keep ms w1
      in (if b = keep then m # rest else rest, w2))"

text \<open>
  The requests of the two summarizers: the prompt as the single user message, with
  \<^verbatim>\<open>model="gpt-4o-mini"\<close>, \<^verbatim>\<open>max_tokens=200\<close> and \<^verbatim>\<open>temperature=0.7\<close>.
\<close>

definition agenda_request :: "pyval \<Rightarrow> pyval \<Rightarrow> meeting \<Rightarrow> request" where
  "agenda_request agency date meeting =
     \<lparr>model = ''gpt-4o-mini'',
      content = agenda_prompt (format_val agency) (format_val date)
                  (format_val (get_default meeting ''raw_content''
                                 (Str ''No content available''))),
      max_tokens = 200,
      temperature = 7 / 10\<rparr>"

definition minutes_request :: "pyval \<Rightarrow> pyval \<Rightarrow> meeting \<Rightarrow> request" where
  "minutes_request agency date meeting =
     \<lparr>model = ''gpt-4o-mini'',
      content = minutes_prompt (format_val agency) (format_val date)
                  (format_val (get_default meeting ''raw_content''
                                 (Str ''No content available''))),
      max_tokens = 200,
      temperature = 7 / 10\<rparr>"

text \<open>\<^verbatim>\<open>_summarize_agenda\<close> and \<^verbatim>\<open>_summarize_minutes\<close>.\<close>

definition summarize_agenda :: "meeting \<Rightarrow> world \<Rightarrow> (error + string) \<times> world" where
  "summarize_agenda meeting w =
    (case getitem meeting ''agency'' of
       Inl e \<Rightarrow> (Inl e, w)
     | Inr agency \<Rightarrow>
         (case getitem meeting ''date'' of
            Inl e \<Rightarrow> (Inl e, w)
          | Inr date \<Rightarrow>
              let (r, w1) = chat_completions_create (agenda_request agency date meeting) w
              in (Inr (try_except (first_content r)
                         (\<lambda>e. ''Summary unavailable - please check the agenda directly.'')),
                  w1)))"

definition summarize_minutes :: "meeting \<Rightarrow> world \<Rightarrow> (error + string) \<times> world" where
  "summarize_minutes meeting w =
    (case getitem meeting ''agency'' of
       Inl e \<Rightarrow> (Inl e, w)
     | Inr agency \<Rightarrow>
         (case getitem meeting ''date'' of
            Inl e \<Rightarrow> (Inl e, w)
          | Inr date \<Rightarrow>
              let (r, w1) = chat_completions_create (minutes_request agency date meeting) w
              in (Inr (try_except (first_content r) (\<lambda>e. ''Summary unavailable.'')), w1)))"

text \<open>The records that the two processing functions append.\<close>

definition upcoming_entry :: "meeting \<Rightarrow> string \<Rightarrow> error + meeting" where
  "upcoming_entry meeting summary =
    (case getitem meeting ''agency'' of
       Inl e \<Rightarrow> Inl e
     | Inr agency \<Rightarrow>
         (case getitem meeting ''date'' of
            Inl e \<Rightarrow> Inl e
          | Inr date \<Rightarrow>
              Inr [''agency'' \<mapsto> agency,
                   ''date'' \<mapsto> date,
                   ''type'' \<mapsto> get_default meeting ''type'' (Str ''Regular Meeting''),
                   ''summary'' \<mapsto> Str summary,
                   ''agenda_url'' \<mapsto> get_default meeting ''agenda_url'' NoneVal]))"

definition recent_entry :: "meeting \<Rightarrow> string \<Rightarrow> error + meeting" where
  "recent_entry meeting summary =
    (case getitem meeting ''agency'' of
       Inl e \<Rightarrow> Inl e
     | Inr agency \<Rightarrow>
         (case getitem meeting ''date'' of
            Inl e \<Rightarrow> Inl e
          | Inr date \<Rightarrow>
              Inr [''agency'' \<mapsto> agency,
                   ''date'' \<mapsto> date,
                   ''type'' \<mapsto> get_default meeting ''type'' (Str ''Regular Meeting''),
                   ''summary'' \<mapsto> Str summary]))"

text \<open>
  \<^verbatim>\<open>_process_upcoming_meetings\<close> and \<^verbatim>\<open>_process_recent_meetings\<close>: a meeting whose
  summary or record raises is logged and left out.
\<close>

fun process_upcoming_loop ::
  "meeting list \<Rightarrow> meeting list \<Rightarrow> world \<Rightarrow> meeting list \<times> world" where
  "process_upcoming_loop [] processed w = (processed, w)"
| "process_upcoming_loop (meeting # meetings) processed w =
     (case summarize_agenda meeting w of
        (Inl e, w1) \<Rightarrow> process_upcoming_loop meetings processed w1
      | (Inr summary, w1) \<Rightarrow>
          (case upcoming_entry meeting summary of
             Inl e \<Rightarrow> process_upcoming_loop meetings processed w1
           | Inr entry \<Rightarrow> process_upcoming_loop meetings (processed @ [entry]) w1))"

definition process_upcoming_meetings :: "meeting list \<Rightarrow> world \<Rightarrow> meeting list \<times> world" where
  "process_upcoming_meetings meetings w = process_upcoming_loop meetings [] w"

fun process_recent_loop ::
  "meeting list \<Rightarrow> meeting list \<Rightarrow> world \<Rightarrow> meeting list \<times> world" where
  "process_recent_loop [] processed w = (processed, w)"
| "process_recent_loop (meeting # meetings) processed w =
     (case summarize_minutes meeting w of
        (Inl e, w1) \<Rightarrow> process_recent_loop meetings processed w1
      | (Inr summary, w1) \<Rightarrow>
          (case recent_entry meeting summary of
             Inl e \<Rightarrow> process_recent_loop meetings processed w1
           | Inr entry \<Rightarrow> process_recent_loop meetings (processed @ [entry]) w1))"

definition process_recent_meetings :: "meeting list \<Rightarrow> world \<Rightarrow> meeting list \<times> world" where
  "process_recent_meetings meetings w = process_recent_loop meetings [] w"

text \<open>
  \<^verbatim>\<open>_find_common_themes\<close>. The content lines are built outside the \<^verbatim>\<open>try\<close>, so a
  record without \<^verbatim>\<open>agency\<close> raises \<^verbatim>\<open>KeyError\<close> to the caller.
\<close>

fun content_lines :: "meeting list \<Rightarrow> error + string list" where
  "content_lines [] = Inr []"
| "content_lines (m # ms) =
     (case getitem m ''agency'' of
        Inl e \<Rightarrow> Inl e
      | Inr agency \<Rightarrow>
          (case content_lines ms of
             Inl e \<Rightarrow> Inl e
           | Inr ls \<Rightarrow>
               Inr ((format_val agency @ '': ''
                     @ format_val (get_default m ''raw_content'' (Str []))) # ls)))"

text \<open>\<^verbatim>\<open>sep.join(xs)\<close>.\<close>

fun join :: "string \<Rightarrow> string list \<Rightarrow> string" where
  "join sep [] = []"
| "join sep [x] = x"
| "join sep (x # y # ys) = x @ sep @ join sep (y # ys)"

text \<open>
  The request of the theme analysis: the content lines joined by blank lines and put into
  the prompt, with \<^verbatim>\<open>max_tokens=500\<close>.
\<close>

definition themes_request :: "string list \<Rightarrow> request" where
  "themes_request ls =
     \<lparr>model = ''gpt-4o-mini'',
      content = themes_prompt (join (nl @ nl) ls),
      max_tokens = 500,
      temperature = 7 / 10\<rparr>"

text \<open>
  The inner \<^verbatim>\<open>try\<close>: the decoded text, or one theme that holds the text when it does
  not decode.
\<close>

definition themes_of_content :: "string \<Rightarrow> json" where
  "themes_of_content reply =
     try_except (json_loads reply)
       (\<lambda>e. JArray [JObject [(''theme'', JString ''Multi-Agency Coordination''),
                              (''description'', JString reply)]])"

definition find_common_themes :: "meeting list \<Rightarrow> world \<Rightarrow> (error + json) \<times> world" where
  "find_common_themes meetings_data w =
    (case content_lines meetings_data of
       Inl e \<Rightarrow> (Inl e, w)
     | Inr ls \<Rightarrow>
         let (r, w1) = chat_completions_create (themes_request ls) w
         in (Inr (case first_content r of
                    Inl e \<Rightarrow> JArray []
                  | Inr reply \<Rightarrow> themes_of_content reply), w1))"

text \<open>\<^verbatim>\<open>process_meetings\<close>.\<close>

record processed_bundle =
  upcoming_meetings :: "meeting list"
  recent_minutes :: "meeting list"
  themes :: json
  total_meetings :: nat

definition process_meetings :: "meeting list \<Rightarrow> world \<Rightarrow> (error + processed_bundle) \<times> world" where
  "process_meetings meetings_data w =
    (let (upcoming, w1) = select_meetings True meetings_data w;
         (recent, w2) = select_meetings False meetings_data w1;
         (processed_upcoming, w3) = process_upcoming_meetings upcoming w2;
         (processed_recent, w4) = process_recent_meetings recent w3
     in case find_common_themes meetings_data w4 of
          (Inl e, w5) \<Rightarrow> (Inl e, w5)
        | (Inr ths, w5) \<Rightarrow>
            (Inr \<lparr>upcoming_meetings = processed_upcoming,
                  recent_minutes = processed_recent,
                  themes = ths,
                  total_meetings = length meetings_data\<rparr>, w5))"

section \<open>The run script (\<^verbatim>\<open>main.py\<close>)\<close>

text \<open>
  The date range of \<^verbatim>\<open>main\<close>: \<^verbatim>\<open>today = datetime.now()\<close>,
  \<^verbatim>\<open>week_start = today - timedelta(days=today.weekday())\<close> and
  \<^verbatim>\<open>week_end = week_start + timedelta(days=6)\<close>.
\<close>

definition week_range :: "world \<Rightarrow> (error + datetime \<times> datetime) \<times> world" where
  "week_range w =
    (let (today, w1) = datetime_now w
     in case add_days today (- int (weekday today)) of
          Inl e \<Rightarrow> (Inl e, w1)
        | Inr week_start \<Rightarrow>
            (case add_days week_start 6 of
               Inl e \<Rightarrow> (Inl e, w1)
             | Inr week_end \<Rightarrow> (Inr (week_start, week_end), w1)))"

text \<open>The first step of \<^verbatim>\<open>main\<close>: the range, then the scrape with it.\<close>

definition main_scrape :: "world \<Rightarrow> (error + meeting list) \<times> world" where
  "main_scrape w =
    (case week_range w of
       (Inl e, w1) \<Rightarrow> (Inl e, w1)
     | (Inr (week_start, week_end), w1) \<Rightarrow>
         (case scrape_weekly_meetings week_start week_end w1 of
            (meetings_data, w2) \<Rightarrow> (Inr meetings_data, w2)))"

section \<open>Example inputs\<close>

text \<open>A naive \<^verbatim>\<open>datetime\<close> value with microsecond 0.\<close>

definition naive :: "nat \<Rightarrow> nat \<Rightarrow> nat \<Rightarrow> nat \<Rightarrow> nat \<Rightarrow> nat \<Rightarrow> datetime" where
  "naive y m d hh mm ss =
     \<lparr>year = y, month = m, day = d, hour = hh, minute = mm, second = ss, microsecond = 0,
      tzinfo = None\<rparr>"

text \<open>
  A writer of markup for the example worlds: a tag with its attributes in double quotes
  around what it holds, a string as it is.
\<close>

fun example_markup :: "node \<Rightarrow> string" where
  "example_markup (NavigableString s) = s"
| "example_markup (Comment s) = ''<!--'' @ s @ ''-->''"
| "example_markup (Tag n attrs cs) =
     ''<'' @ n @ concat (map (\<lambda>(k, v). '' '' @ k @ ''='' @ [CHR 0x22] @ v @ [CHR 0x22]) attrs)
     @ ''>'' @ concat (map example_markup cs) @ ''</'' @ n @ ''>''"

declare example_markup.simps [simp del]

text \<open>
  A world on Wednesday 2025-03-12 at 14:30 in which every fetch and every completion call
  raises.
\<close>

definition failing_world :: world where
  "failing_world =
     \<lparr>clock = (\<lambda>k. naive 2025 3 12 14 30 0),
      http = (\<lambda>k url. Inl RequestException),
      remote = (\<lambda>k req. Inl APIError),
      str_of = example_markup\<rparr>"

text \<open>A record as the Granicus parser writes it.\<close>

definition sample_meeting :: meeting where
  "sample_meeting =
     [''agency'' \<mapsto> Str ''Kern County Board of Supervisors'',
      ''date'' \<mapsto> Str ''2025-03-15T00:00:00'',
      ''type'' \<mapsto> Str ''Regular Meeting'',
      ''agenda_url'' \<mapsto> NoneVal,
      ''raw_content'' \<mapsto> Str ''<tr class=meeting><td>3/15/2025</td></tr>'',
      ''source'' \<mapsto> Str ''granicus'']"

text \<open>Two of the configured sources.\<close>

definition county_supervisors :: config where
  "county_supervisors =
     \<lparr>base_url = ''https://kernco.granicus.com'',
      meetings_path = ''/ViewPublished.php?view_id=2'',
      name = ''Kern County Board of Supervisors''\<rparr>"

definition bakersfield_council :: config where
  "bakersfield_council =
     \<lparr>base_url = ''https://bakersfield.legistar.com'',
      meetings_path = ''/Calendar.aspx'',
      name = ''Bakersfield City Council''\<rparr>"

text \<open>The anchor \<^verbatim>\<open><a href="/MeetingDetail.aspx?ID=123">City Council Regular Meeting</a>\<close>.\<close>

definition meeting_link :: node where
  "meeting_link =
     Tag ''a'' [(''href'', ''/MeetingDetail.aspx?ID=123'')]
       [NavigableString ''City Council Regular Meeting'']"

text \<open>A calendar page that holds the anchor, and a world that serves it to every fetch.\<close>

definition calendar_page :: node where
  "calendar_page =
     Tag ''[document]'' []
       [Tag ''table'' [] [Tag ''tr'' [] [Tag ''td'' [] [meeting_link]]]]"

definition calendar_world :: world where
  "calendar_world =
     \<lparr>clock = (\<lambda>k. naive 2025 3 12 14 30 0),
      http = (\<lambda>k url. Inr calendar_page),
      remote = (\<lambda>k req. Inl APIError),
      str_of = example_markup\<rparr>"

text \<open>
  A Granicus row dated 3/15/2025 with a link to its agenda, a row whose text holds more
  than the date, a row dated Monday 3/10/2025 and a row dated 3/20/2025.
\<close>

definition meeting_row :: node where
  "meeting_row =
     Tag ''tr'' [(''class'', ''meeting'')]
       [Tag ''td'' [] [NavigableString ''3/15/2025''],
        Tag ''td'' [] [Tag ''a'' [(''href'', ''/AgendaViewer.php?view_id=2'')]
                         [NavigableString ''Agenda'']]]"

definition titled_row :: node where
  "titled_row =
     Tag ''div'' [(''class'', ''meeting'')] [NavigableString ''Board Meeting 3/15/2025'']"

definition monday_row :: node where
  "monday_row = Tag ''tr'' [(''class'', ''meeting'')] [Tag ''td'' [] [NavigableString ''3/10/2025'']]"

definition later_row :: node where
  "later_row = Tag ''tr'' [(''class'', ''meeting'')] [Tag ''td'' [] [NavigableString ''3/20/2025'']]"

text \<open>The records that the parsers return for \<open>meeting_row\<close> and \<open>meeting_link\<close>.\<close>

definition granicus_sample :: meeting where
  "granicus_sample =
     [''agency'' \<mapsto> Str ''Kern County Board of Supervisors'',
      ''date'' \<mapsto> Str ''2025-03-15T00:00:00'',
      ''type'' \<mapsto> Str ''Regular Meeting'',
      ''agenda_url'' \<mapsto> Str ''/AgendaViewer.php?view_id=2'',
      ''raw_content'' \<mapsto> Str (example_markup meeting_row),
      ''source'' \<mapsto> Str ''granicus'']"

definition legistar_sample :: meeting where
  "legistar_sample =
     [''agency'' \<mapsto> Str ''Bakersfield City Council'',
      ''date'' \<mapsto> Str ''2025-03-12T14:30:00'',
      ''type'' \<mapsto> Str ''Regular Meeting'',
      ''agenda_url'' \<mapsto> Str ''https://bakersfield.legistar.com/MeetingDetail.aspx?ID=123'',
      ''title'' \<mapsto> Str ''City Council Regular Meeting'',
      ''source'' \<mapsto> Str ''legistar'']"

text \<open>
  A world on Wednesday 2025-03-12 at 14:30 in which every fetch returns a page that holds
  the row dated Monday 3/10/2025.
\<close>

definition monday_page :: node where
  "monday_page = Tag ''[document]'' [] [Tag ''table'' [] [monday_row]]"

definition monday_world :: world where
  "monday_world =
     \<lparr>clock = (\<lambda>k. naive 2025 3 12 14 30 0),
      http = (\<lambda>k url. Inr monday_page),
      remote = (\<lambda>k req. Inl APIError),
      str_of = example_markup\<rparr>"

text \<open>
  A world in which the Legistar site cannot be reached and each Granicus site returns a
  page with the row dated 3/15/2025.
\<close>

definition granicus_page :: node where
  "granicus_page = Tag ''[document]'' [] [Tag ''table'' [] [meeting_row]]"

definition outage_world :: world where
  "outage_world =
     \<lparr>clock = (\<lambda>k. naive 2025 3 12 14 30 0),
      http = (\<lambda>k url. if contains url ''legistar'' then Inl RequestException
                        else Inr granicus_page),
      remote = (\<lambda>k req. Inl APIError),
      str_of = example_markup\<rparr>"

text \<open>
  A world in which the completion endpoint answers every request with one choice, the
  sentence \<^verbatim>\<open>No meetings were provided.\<close> followed by a line feed.
\<close>

definition line_reply :: string where
  "line_reply = ''No meetings were provided.'' @ nl"

definition reply_world :: world where
  "reply_world =
     \<lparr>clock = (\<lambda>k. naive 2025 3 12 14 30 0),
      http = (\<lambda>k url. Inl RequestException),
      remote = (\<lambda>k req. Inr [Some line_reply]),
      str_of = example_markup\<rparr>"

text \<open>
  A record whose date is written with the UTC marker \<^verbatim>\<open>Z\<close>, a record without a date
  and a record without an agency.
\<close>

definition z_meeting :: meeting where
  "z_meeting =
     [''agency'' \<mapsto> Str ''Kern County Board of Supervisors'',
      ''date'' \<mapsto> Str ''2999-01-01T00:00:00Z'',
      ''type'' \<mapsto> Str ''Regular Meeting'',
      ''agenda_url'' \<mapsto> NoneVal,
      ''raw_content'' \<mapsto> Str ''<tr class=meeting><td>1/1/2999</td></tr>'',
      ''source'' \<mapsto> Str ''granicus'']"

definition undated_meeting :: meeting where
  "undated_meeting = [''agency'' \<mapsto> Str ''Bakersfield City Council'']"

definition nameless_meeting :: meeting where
  "nameless_meeting = [''date'' \<mapsto> Str ''2025-03-15T00:00:00'']"

text \<open>
  A world whose clock passes midnight between two readings: 2025-03-14 at 23:59:59, then
  2025-03-15 at 00:00:00. Every fetch and every completion call raises.
\<close>

definition midnight_world :: world where
  "midnight_world =
     \<lparr>clock = (\<lambda>k. if k = 0 then naive 2025 3 14 23 59 59 else naive 2025 3 15 0 0 0),
      http = (\<lambda>k url. Inl RequestException),
      remote = (\<lambda>k req. Inl APIError),
      str_of = example_markup\<rparr>"

text \<open>The entries that the bundle holds for \<open>sample_meeting\<close> and \<open>z_meeting\<close>.\<close>

definition sample_upcoming_entry :: meeting where
  "sample_upcoming_entry =
     [''agency'' \<mapsto> Str ''Kern County Board of Supervisors'',
      ''date'' \<mapsto> Str ''2025-03-15T00:00:00'',
      ''type'' \<mapsto> Str ''Regular Meeting'',
      ''summary'' \<mapsto> Str ''Summary unavailable - please check the agenda directly.'',
      ''agenda_url'' \<mapsto> NoneVal]"

definition sample_recent_entry :: meeting where
  "sample_recent_entry =
     [''agency'' \<mapsto> Str ''Kern County Board of Supervisors'',
      ''date'' \<mapsto> Str ''2025-03-15T00:00:00'',
      ''type'' \<mapsto> Str ''Regular Meeting'',
      ''summary'' \<mapsto> Str ''Summary unavailable.'']"

definition z_recent_entry :: meeting where
  "z_recent_entry =
     [''agency'' \<mapsto> Str ''Kern County Board of Supervisors'',
      ''date'' \<mapsto> Str ''2999-01-01T00:00:00Z'',
      ''type'' \<mapsto> Str ''Regular Meeting'',
      ''summary'' \<mapsto> Str ''Summary unavailable.'']"

text \<open>
  A world whose clock moves on by a second from one reading to the next, from
  2025-03-12 at 14:30:00 to 14:30:59. Every fetch and every completion call raises.
\<close>

definition ticking_world :: world where
  "ticking_world =
     \<lparr>clock = (\<lambda>k. naive 2025 3 12 14 30 (min k 59)),
      http = (\<lambda>k url. Inl RequestException),
      remote = (\<lambda>k req. Inl APIError),
      str_of = example_markup\<rparr>"

section \<open>Notions used to state the properties\<close>

text \<open>
  What \<^verbatim>\<open>_is_upcoming\<close> returns when the clock reads \<open>now\<close>: the date is a string that
  parses, and the parsed value compares greater than the naive \<open>now\<close>.
\<close>

definition upcoming_at :: "datetime \<Rightarrow> meeting \<Rightarrow> bool" where
  "upcoming_at now meeting =
    (case meeting ''date'' of
       Some (Str s) \<Rightarrow>
         (case fromisoformat (replace_Z s) of
            Inl e \<Rightarrow> False
          | Inr d \<Rightarrow> try_except (dt_greater d (now\<lparr>tzinfo := None\<rparr>)) (\<lambda>e. False))
     | _ \<Rightarrow> False)"

text \<open>A world whose clock gives the same reading \<open>c\<close> from now on.\<close>

definition steady :: "world \<Rightarrow> datetime \<Rightarrow> bool" where
  "steady w c = (\<forall>k. clock w k = c)"

text \<open>
  What one source adds to the result, given the outcome of its fetch: nothing when the
  fetch raised, and otherwise the records parsed from the page. The Legistar records take
  their dates from the clock of the world \<open>w\<close>, the Granicus records their markup from
  its \<open>str_of\<close>.
\<close>

definition source_records ::
  "config \<Rightarrow> datetime \<Rightarrow> datetime \<Rightarrow> world \<Rightarrow> error + node \<Rightarrow> meeting list" where
  "source_records cfg ws we w page =
    (case page of
       Inl e \<Rightarrow> []
     | Inr soup \<Rightarrow>
         if contains (base_url cfg) ''granicus''
         then granicus_rows (str_of w) (find_all_meeting_rows soup) cfg ws we []
         else if contains (base_url cfg) ''legistar''
         then fst (legistar_links (find_all_meeting_links soup) cfg ws we [] w)
         else [])"

definition source_url :: "config \<Rightarrow> string" where
  "source_url cfg = base_url cfg @ meetings_path cfg"


text \<open>
  A naive \<^verbatim>\<open>datetime\<close> value whose fields are in the ranges that the constructor
  accepts: the values that \<^verbatim>\<open>strptime\<close> and \<^verbatim>\<open>datetime.now()\<close> return.
\<close>

definition valid_naive :: "datetime \<Rightarrow> bool" where
  "valid_naive d =
    (1 \<le> year d \<and> year d \<le> 9999 \<and> 1 \<le> month d \<and> month d \<le> 12
     \<and> 1 \<le> day d \<and> day d \<le> days_in_month (year d) (month d)
     \<and> hour d < 24 \<and> minute d < 60 \<and> second d < 60 \<and> microsecond d < 1000000
     \<and> tzinfo d = None)"

text \<open>
  An ISO 8601 timestamp in the extended format, \<^verbatim>\<open>YYYY-MM-DDTHH:MM:SS\<close> with an
  optional fraction \<^verbatim>\<open>.ffffff\<close>: digits and separators in their places, and a month,
  a day of that month, an hour, a minute and a second in range.
\<close>

definition iso_8601 :: "string \<Rightarrow> bool" where
  "iso_8601 s =
    ((length s = 19 \<or> length s = 26 \<and> s ! 19 = CHR ''.'' \<and> all_digits (drop 20 s))
     \<and> all_digits (take 4 s) \<and> s ! 4 = CHR ''-''
     \<and> all_digits (take 2 (drop 5 s)) \<and> s ! 7 = CHR ''-''
     \<and> all_digits (take 2 (drop 8 s)) \<and> s ! 10 = CHR ''T''
     \<and> all_digits (take 2 (drop 11 s)) \<and> s ! 13 = CHR '':''
     \<and> all_digits (take 2 (drop 14 s)) \<and> s ! 16 = CHR '':''
     \<and> all_digits (take 2 (drop 17 s))
     \<and> 1 \<le> int_of_digits (take 2 (drop 5 s)) \<and> int_of_digits (take 2 (drop 5 s)) \<le> 12
     \<and> 1 \<le> int_of_digits (take 2 (drop 8 s))
     \<and> int_of_digits (take 2 (drop 8 s))
         \<le> days_in_month (int_of_digits (take 4 s)) (int_of_digits (take 2 (drop 5 s)))
     \<and> int_of_digits (take 2 (drop 11 s)) < 24
     \<and> int_of_digits (take 2 (drop 14 s)) < 60
     \<and> int_of_digits (take 2 (drop 17 s)) < 60)"

text \<open>
  The values that \<^verbatim>\<open>_is_upcoming\<close> returns for the records of a list, called on each
  in turn as a list comprehension of \<^verbatim>\<open>process_meetings\<close> does, and the world after
  these calls.
\<close>

fun verdicts :: "meeting list \<Rightarrow> world \<Rightarrow> bool list \<times> world" where
  "verdicts [] w = ([], w)"
| "verdicts (m # ms) w =
     (let (b, w1) = is_upcoming m w;
          (bs, w2) = verdicts ms w1
      in (b # bs, w2))"

section \<open>Evaluating the model on the examples\<close>

lemmas string_evals = strip_def isspace_def icontains_def lower_char_def

lemmas parse_evals =
  strptime_mdY_def month_field_def day_field_def year_field_def not_slash_def
  make_datetime_def days_in_month_def is_leap_def DAYS_IN_MONTH_def
  all_digits_def isdigit_def int_of_digits_def digit_val_def

lemmas iso_evals =
  fromisoformat_def parse_isoformat_date_def parse_isoformat_time_def parse_tz_def
  parse_hh_mm_ss_ff_def two_digits_def not_sign_def replace_Z_def

lemmas compare_evals = in_week_def dt_le_def dt_less_def dt_greater_def naive_key_def naive_def

lemmas format_evals = isoformat_def zfill_def digits.simps naive_def

lemmas html_evals = date_at_def date_here_def find_agenda_link_def agenda_url_of_def

lemma parse_meeting_row:
  "parse_granicus_meeting example_markup meeting_row county_supervisors
     (naive 2025 3 10 0 0 0) (naive 2025 3 16 0 0 0) = Some granicus_sample"
proof -
  have fd: "find_date_text meeting_row = Inr (Some ''3/15/2025'')"
    by (simp add: meeting_row_def html_evals parse_evals)
  have sp: "strptime_mdY (strip ''3/15/2025'') = Inr (naive 2025 3 15 0 0 0)"
    by (simp add: string_evals parse_evals naive_def)
  have iw: "in_week (naive 2025 3 10 0 0 0) (naive 2025 3 15 0 0 0) (naive 2025 3 16 0 0 0)
              = Inr True"
    by (simp add: compare_evals)
  have au: "agenda_url_of meeting_row = Inr (Str ''/AgendaViewer.php?view_id=2'')"
    by (simp add: meeting_row_def html_evals string_evals)
  have iso: "isoformat (naive 2025 3 15 0 0 0) = ''2025-03-15T00:00:00''"
    by (simp add: format_evals)
  show ?thesis
    by (simp add: parse_granicus_meeting_def parse_granicus_body_def try_except_def
          fd sp iw au iso granicus_sample_def county_supervisors_def)
qed

lemma parse_meeting_link:
  "fst (parse_legistar_meeting meeting_link bakersfield_council ws we calendar_world)
     = Some legistar_sample"
proof -
  have iso: "isoformat (naive 2025 3 12 14 30 0) = ''2025-03-12T14:30:00''"
    by (simp add: format_evals)
  have title: "strip ''City Council Regular Meeting'' = ''City Council Regular Meeting''"
    by (simp add: string_evals)
  have now: "(naive 2025 3 12 14 30 0)\<lparr>tzinfo := None\<rparr> = naive 2025 3 12 14 30 0"
    by (simp add: naive_def)
  show ?thesis
    by (simp add: parse_legistar_meeting_def meeting_link_def datetime_now_def
          calendar_world_def bakersfield_council_def legistar_sample_def iso title now)
qed

section \<open>Facts about the parsers\<close>

lemma agenda_url_of_cases:
  "agenda_url_of element = Inr NoneVal \<or> (\<exists>h. agenda_url_of element = Inr (Str h))"
proof (cases "find_agenda_link element")
  case None
  then show ?thesis by (simp add: agenda_url_of_def)
next
  case (Some l)
  then have "is_agenda_link l"
    by (auto simp: find_agenda_link_def find_Some_iff)
  then obtain n attrs cs h where "l = Tag n attrs cs" "map_of attrs ''href'' = Some h"
    by (cases l) (auto split: option.splits)
  with Some show ?thesis by (simp add: agenda_url_of_def)
qed

lemma parse_granicus_meeting_Some:
  assumes "parse_granicus_meeting to_str element cfg ws we = Some m"
  obtains t d u where
    "find_date_text element = Inr (Some t)" and "strptime_mdY (strip t) = Inr d"
    and "in_week ws d we = Inr True" and "agenda_url_of element = Inr u"
    and "m = [''agency'' \<mapsto> Str (name cfg), ''date'' \<mapsto> Str (isoformat d),
              ''type'' \<mapsto> Str ''Regular Meeting'', ''agenda_url'' \<mapsto> u,
              ''raw_content'' \<mapsto> Str (to_str element), ''source'' \<mapsto> Str ''granicus'']"
  using assms
  by (auto simp: parse_granicus_meeting_def parse_granicus_body_def try_except_def
      split: sum.splits option.splits bool.splits)

section \<open>Facts about the classification\<close>

lemma is_upcoming_at: "fst (is_upcoming meeting w) = upcoming_at (clock w 0) meeting"
  by (simp add: is_upcoming_def upcoming_at_def getitem_def datetime_now_def split_beta
      split: option.splits pyval.splits sum.splits)

lemma is_upcoming_steady: "steady w c \<Longrightarrow> steady (snd (is_upcoming meeting w)) c"
  by (simp add: is_upcoming_def steady_def getitem_def datetime_now_def split_beta
      split: option.splits pyval.splits sum.splits)

lemma select_meetings_steady:
  assumes "steady w c"
  shows "fst (select_meetings keep ms w) = filter (\<lambda>m. upcoming_at c m = keep) ms
       \<and> steady (snd (select_meetings keep ms w)) c"
  using assms
proof (induction ms arbitrary: w)
  case Nil
  then show ?case by simp
next
  case (Cons m ms)
  from Cons.prems have c: "clock w 0 = c" by (simp add: steady_def)
  note IH = Cons.IH [OF is_upcoming_steady [OF Cons.prems, of m]]
  show ?case
    using IH by (simp add: split_beta is_upcoming_at c)
qed

lemma select_meetings_length:
  "length (fst (select_meetings keep ms w)) \<le> length ms"
proof (induction ms arbitrary: w)
  case Nil
  then show ?case by simp
next
  case (Cons m ms)
  from Cons.IH [of "snd (is_upcoming m w)"] show ?case
    by (simp add: split_beta le_SucI)
qed

lemma aware_never_upcoming:
  assumes "meeting ''date'' = Some (Str s)" and "fromisoformat (replace_Z s) = Inr d"
    and "tzinfo d \<noteq> None"
  shows "upcoming_at now meeting = False"
  using assms
  by (auto simp: upcoming_at_def dt_greater_def dt_less_def try_except_def)

lemma process_upcoming_loop_length:
  "length (fst (process_upcoming_loop ms processed w)) \<le> length processed + length ms"
proof (induction ms arbitrary: processed w)
  case Nil
  then show ?case by simp
next
  case (Cons m ms)
  show ?case
  proof (cases "summarize_agenda m w")
    case (Pair r w1)
    show ?thesis
    proof (cases r)
      case (Inl e)
      with Pair Cons.IH [of processed w1] show ?thesis by simp
    next
      case (Inr summary)
      show ?thesis
      proof (cases "upcoming_entry m summary")
        case (Inl e)
        with Pair Inr Cons.IH [of processed w1] show ?thesis by simp
      next
        case entry: (Inr entry)
        with Pair Inr Cons.IH [of "processed @ [entry]" w1] show ?thesis by simp
      qed
    qed
  qed
qed

lemma process_recent_loop_length:
  "length (fst (process_recent_loop ms processed w)) \<le> length processed + length ms"
proof (induction ms arbitrary: processed w)
  case Nil
  then show ?case by simp
next
  case (Cons m ms)
  show ?case
  proof (cases "summarize_minutes m w")
    case (Pair r w1)
    show ?thesis
    proof (cases r)
      case (Inl e)
      with Pair Cons.IH [of processed w1] show ?thesis by simp
    next
      case (Inr summary)
      show ?thesis
      proof (cases "recent_entry m summary")
        case (Inl e)
        with Pair Inr Cons.IH [of processed w1] show ?thesis by simp
      next
        case entry: (Inr entry)
        with Pair Inr Cons.IH [of "processed @ [entry]" w1] show ?thesis by simp
      qed
    qed
  qed
qed

lemma content_lines_present:
  assumes "\<forall>m \<in> set ms. m ''agency'' \<noteq> None"
  shows "\<exists>ls. content_lines ms = Inr ls"
  using assms by (induction ms) (auto simp: getitem_def)

lemma content_lines_missing:
  assumes "\<exists>m \<in> set ms. m ''agency'' = None"
  shows "content_lines ms = Inl (KeyError ''agency'')"
  using assms
proof (induction ms)
  case Nil
  then show ?case by simp
next
  case (Cons m ms)
  show ?case
  proof (cases "m ''agency''")
    case None
    then show ?thesis by (simp add: getitem_def)
  next
    case (Some a)
    with Cons.prems have "\<exists>m \<in> set ms. m ''agency'' = None" by auto
    with Cons.IH Some show ?thesis by (simp add: getitem_def)
  qed
qed

lemma find_common_themes_present:
  assumes "\<forall>m \<in> set ms. m ''agency'' \<noteq> None"
  shows "\<exists>ths. fst (find_common_themes ms w) = Inr ths"
  using content_lines_present [OF assms]
  by (auto simp: find_common_themes_def split_beta)

lemma find_common_themes_missing:
  assumes "\<exists>m \<in> set ms. m ''agency'' = None"
  shows "fst (find_common_themes ms w) = Inl (KeyError ''agency'')"
  using content_lines_missing [OF assms]
  by (simp add: find_common_themes_def)

lemma select_meetings_verdicts:
  "select_meetings keep ms w
     = (map fst (filter (\<lambda>(m, b). b = keep) (zip ms (fst (verdicts ms w)))),
        snd (verdicts ms w))"
  by (induction ms arbitrary: w) (simp_all add: split_beta)

lemma verdicts_length: "length (fst (verdicts ms w)) = length ms"
  by (induction ms arbitrary: w) (simp_all add: split_beta)

lemma is_upcoming_clock:
  "clock (snd (is_upcoming meeting w)) = clock w
   \<or> clock (snd (is_upcoming meeting w)) = (\<lambda>k. clock w (Suc k))"
  by (simp add: is_upcoming_def getitem_def datetime_now_def split_beta
      split: option.splits pyval.splits sum.splits)

lemma verdicts_class:
  assumes "\<forall>m \<in> set ms. \<forall>k < length ms. upcoming_at (clock w k) m = c m"
  shows "fst (verdicts ms w) = map c ms
       \<and> (\<exists>r \<le> length ms. clock (snd (verdicts ms w)) = (\<lambda>k. clock w (k + r)))"
  using assms
proof (induction ms arbitrary: w)
  case Nil
  then show ?case by simp
next
  case (Cons m ms)
  define w1 where "w1 = snd (is_upcoming m w)"
  from Cons.prems have b: "fst (is_upcoming m w) = c m"
    by (simp add: is_upcoming_at)
  from is_upcoming_clock [of m w]
  obtain s where s: "s \<le> 1" "clock w1 = (\<lambda>k. clock w (k + s))"
    unfolding w1_def by (metis add_0_right add_Suc_right le_numeral_extra(4) zero_le One_nat_def)
  have "\<forall>m' \<in> set ms. \<forall>k < length ms. upcoming_at (clock w1 k) m' = c m'"
    using Cons.prems s by simp
  from Cons.IH [OF this] obtain r where
    v: "fst (verdicts ms w1) = map c ms"
    and r: "r \<le> length ms" "clock (snd (verdicts ms w1)) = (\<lambda>k. clock w1 (k + r))"
    by blast
  have "clock (snd (verdicts ms w1)) = (\<lambda>k. clock w (k + (r + s)))"
    by (simp add: r s add.assoc)
  moreover have "r + s \<le> length (m # ms)"
    using r s by simp
  ultimately show ?case
    using b v by (auto simp: split_beta simp flip: w1_def)
qed

section \<open>Facts about the JSON decoder\<close>

text \<open>
  Every scanner consumes input, so the tests on the length in \<open>JSONArray\<close> and
  \<open>JSONObject\<close> never fail: the functions satisfy their equations without the tests.
\<close>

lemma scanstring_shorter: "scanstring acc s = Some (b, r) \<Longrightarrow> length r < length s"
proof (induction acc s rule: scanstring.induct)
  case (1 acc)
  then show ?case by simp
next
  case (2 acc c cs)
  then show ?case
    by (auto split: if_splits list.splits)
qed

lemma digits_then_shorter: "digits_then s = Some (d, r) \<Longrightarrow> length r < length s"
proof (cases s)
  case Nil
  then show "digits_then s = Some (d, r) \<Longrightarrow> length r < length s"
    by (simp add: digits_then_def)
next
  case (Cons c cs)
  assume "digits_then s = Some (d, r)"
  with Cons have "r = dropWhile isdigit cs"
    by (auto simp: digits_then_def split: if_splits)
  with Cons length_dropWhile_le [of isdigit cs] show "length r < length s" by simp
qed

lemma literal_length: "literal lit s \<Longrightarrow> length lit \<le> length s"
  by (metis literal_def length_take min.cobounded1)

lemma minus_sign_length: "length (snd (minus_sign s)) \<le> length s"
  by (simp add: minus_sign_def)

lemma int_part_shorter: "int_part s = Some (i, r) \<Longrightarrow> length r < length s"
  by (cases s) (auto simp: int_part_def split: if_splits dest: digits_then_shorter)

lemma frac_part_length: "length (snd (frac_part s)) \<le> length s"
  by (cases s) (auto simp: frac_part_def split: option.splits dest!: digits_then_shorter)

lemma exp_sign_length: "length (snd (exp_sign s)) \<le> length s"
  by (simp add: exp_sign_def)

lemma exp_part_length: "length (snd (exp_part s)) \<le> length s"
proof (cases s)
  case Nil
  then show ?thesis by (simp add: exp_part_def)
next
  case (Cons c cs)
  show ?thesis
    using exp_sign_length [of cs] Cons
    by (auto simp: exp_part_def split: option.splits dest!: digits_then_shorter)
qed

lemma scan_number_shorter:
  assumes "scan_number s = Some (n, r)"
  shows "length r < length s"
proof -
  from assms obtain i r1 where i: "int_part (snd (minus_sign s)) = Some (i, r1)"
    and r: "r = snd (exp_part (snd (frac_part r1)))"
    by (auto simp: scan_number_def split: option.splits)
  from int_part_shorter [OF i] minus_sign_length [of s] have "length r1 < length s" by simp
  with frac_part_length [of r1] exp_part_length [of "snd (frac_part r1)"] r
  show ?thesis by simp
qed

lemma scan_atom_shorter: "scan_atom s = Some (v, r) \<Longrightarrow> length r < length s"
  by (auto simp: scan_atom_def split: if_splits option.splits
      dest!: literal_length scan_number_shorter)

lemma skip_ws_length: "length (skip_ws s) \<le> length s"
  by (simp add: skip_ws_def length_dropWhile_le)

lemma skip_ws_Cons: "skip_ws s = d # ds \<Longrightarrow> length ds < length s"
  using skip_ws_length [of s] by simp


lemma scan_shorter:
  "\<forall>v r. scan_once s = Some (v, r) \<longrightarrow> length r < length s"
  "\<forall>v r. JSONArray vals s' = Some (v, r) \<longrightarrow> length r < length s'"
  "\<forall>v r. JSONObject pairs s'' = Some (v, r) \<longrightarrow> length r < length s''"
proof (induction s and vals s' and pairs s'' rule: scan_once_JSONArray_JSONObject.induct)
  case 1
  then show ?case by simp
next
  case (2 c cs)
  show ?case
  proof (intro allI impI)
    fix v r
    assume a: "scan_once (c # cs) = Some (v, r)"
    consider (str) "c = CHR 0x22" | (obj) "c \<noteq> CHR 0x22" "c = CHR ''{''"
      | (arr) "c \<noteq> CHR 0x22" "c \<noteq> CHR ''{''" "c = CHR ''[''"
      | (atom) "c \<noteq> CHR 0x22" "c \<noteq> CHR ''{''" "c \<noteq> CHR ''[''"
      by blast
    then show "length r < length (c # cs)"
    proof cases
      case str
      with a show ?thesis
        by (auto split: option.splits dest!: scanstring_shorter)
    next
      case obj
      with a obtain d ds where sk: "skip_ws cs = d # ds"
        by (cases "skip_ws cs") auto
      show ?thesis
      proof (cases "d = CHR 0x22")
        case True
        with a obj sk have "JSONObject [] ds = Some (v, r)" by simp
        with "2.IH"(1) [OF obj sk True] have "length r < length ds" by blast
        with skip_ws_Cons [OF sk] show ?thesis by simp
      next
        case False
        with a obj sk have "r = ds" by (auto split: if_splits)
        with skip_ws_Cons [OF sk] show ?thesis by simp
      qed
    next
      case arr
      with a obtain d ds where sk: "skip_ws cs = d # ds"
        by (cases "skip_ws cs") auto
      show ?thesis
      proof (cases "d = CHR '']''")
        case True
        with a arr sk have "r = ds" by simp
        with skip_ws_Cons [OF sk] show ?thesis by simp
      next
        case False
        with a arr sk have "JSONArray [] (d # ds) = Some (v, r)" by simp
        with "2.IH"(2) [OF arr sk False] have "length r < length (d # ds)" by blast
        with skip_ws_length [of cs] sk show ?thesis by simp
      qed
    next
      case atom
      with a have "scan_atom (c # cs) = Some (v, r)" by simp
      then show ?thesis by (rule scan_atom_shorter)
    qed
  qed
next
  case (3 vals s)
  show ?case
  proof (intro allI impI)
    fix v r
    assume a: "JSONArray vals s = Some (v, r)"
    then obtain v0 r0 where so: "scan_once s = Some (v0, r0)"
      by (cases "scan_once s") auto
    with a have g: "length r0 < length s" by (auto split: if_splits)
    with a so obtain d ds where sk: "skip_ws r0 = d # ds"
      by (cases "skip_ws r0") auto
    show "length r < length s"
    proof (cases "d = CHR '']''")
      case True
      with a so g sk have "r = ds" by simp
      with skip_ws_Cons [OF sk] g show ?thesis by simp
    next
      case False
      with a so g sk have c: "d = CHR '',''" and
        rec: "JSONArray (vals @ [v0]) (skip_ws ds) = Some (v, r)"
        by (auto split: if_splits)
      from "3.IH"(2) [OF so refl g sk False c] rec
      have "length r < length (skip_ws ds)" by blast
      with skip_ws_length [of ds] skip_ws_Cons [OF sk] g show ?thesis by simp
    qed
  qed
next
  case (4 pairs s)
  show ?case
  proof (intro allI impI)
    fix v r
    assume a: "JSONObject pairs s = Some (v, r)"
    then obtain k r0 where ss: "scanstring [] s = Some (k, r0)"
      by (cases "scanstring [] s") auto
    with a obtain colon r1 where sk0: "skip_ws r0 = colon # r1"
      by (cases "skip_ws r0") auto
    with a ss have col: "\<not> colon \<noteq> CHR '':''" and g1: "length r1 < Suc (length s)"
      by (auto split: if_splits)
    with a ss sk0 obtain v0 r2 where so: "scan_once (skip_ws r1) = Some (v0, r2)"
      by (cases "scan_once (skip_ws r1)") auto
    with a ss sk0 col g1 have g2: "length r2 < Suc (length s)"
      by (auto split: if_splits)
    with a ss sk0 col g1 so obtain d ds where sk: "skip_ws r2 = d # ds"
      by (cases "skip_ws r2") auto
    from "4.IH"(1) [OF ss refl sk0 col g1] so have l2: "length r2 < length (skip_ws r1)"
      by blast
    have l1: "length r1 < length s"
      using scanstring_shorter [OF ss] skip_ws_Cons [OF sk0] by simp
    show "length r < length s"
    proof (cases "d = CHR ''}''")
      case True
      with a ss sk0 col g1 so g2 sk have "r = ds" by simp
      with skip_ws_Cons [OF sk] l2 skip_ws_length [of r1] l1 show ?thesis by simp
    next
      case False
      with a ss sk0 col g1 so g2 sk have c: "d = CHR '',''"
        by (auto split: if_splits)
      with a ss sk0 col g1 so g2 sk False obtain q qs where sq: "skip_ws ds = q # qs"
        by (cases "skip_ws ds") auto
      with a ss sk0 col g1 so g2 sk False c have qq: "q = CHR 0x22"
        and rec: "JSONObject (pairs @ [(k, v0)]) qs = Some (v, r)"
        by (auto split: if_splits)
      from "4.IH"(2) [OF ss refl sk0 col g1 so refl g2 sk False c sq qq] rec
      have "length r < length qs" by blast
      with skip_ws_Cons [OF sq] skip_ws_Cons [OF sk] l2 skip_ws_length [of r1] l1
      show ?thesis by simp
    qed
  qed
qed


lemma JSONArray_unfold:
  "JSONArray vals s =
    (case scan_once s of
       None \<Rightarrow> None
     | Some (v, r) \<Rightarrow>
         (case skip_ws r of
            [] \<Rightarrow> None
          | d # ds \<Rightarrow>
              if d = CHR '']'' then Some (JArray (vals @ [v]), ds)
              else if d = CHR '','' then JSONArray (vals @ [v]) (skip_ws ds)
              else None))"
  using scan_shorter(1) [of s]
  by (auto split: option.splits)

lemma JSONObject_unfold:
  "JSONObject pairs s =
    (case scanstring [] s of
       None \<Rightarrow> None
     | Some (k, r0) \<Rightarrow>
         (case skip_ws r0 of
            [] \<Rightarrow> None
          | colon # r1 \<Rightarrow>
              if colon \<noteq> CHR '':'' then None
              else
                (case scan_once (skip_ws r1) of
                   None \<Rightarrow> None
                 | Some (v, r) \<Rightarrow>
                     (case skip_ws r of
                        [] \<Rightarrow> None
                      | d # ds \<Rightarrow>
                          if d = CHR ''}'' then Some (JObject (pairs @ [(k, v)]), ds)
                          else if d = CHR '','' then
                            (case skip_ws ds of
                               [] \<Rightarrow> None
                             | q # qs \<Rightarrow>
                                 if q = CHR 0x22 then JSONObject (pairs @ [(k, v)]) qs
                                 else None)
                          else None))))"
proof (cases "scanstring [] s")
  case None
  then show ?thesis by simp
next
  case (Some kr)
  obtain k r0 where kr: "kr = (k, r0)" by (cases kr)
  show ?thesis
  proof (cases "skip_ws r0")
    case Nil
    with Some kr show ?thesis by simp
  next
    case (Cons colon r1)
    have l1: "length r1 < Suc (length s)"
      using scanstring_shorter [of "[]" s k r0] Some kr skip_ws_Cons [OF Cons] by simp
    have l2: "length r < Suc (length s)" if "scan_once (skip_ws r1) = Some (v, r)" for v r
      using scan_shorter(1) [of "skip_ws r1"] that skip_ws_length [of r1] l1 by fastforce
    show ?thesis
      using Some kr Cons l1 l2
      by (auto split: option.splits)
  qed
qed

section \<open>Facts about \<^verbatim>\<open>isoformat()\<close> and \<^verbatim>\<open>fromisoformat()\<close>\<close>

lemma digit_char:
  assumes "k < 10"
  shows "isdigit (''0123456789'' ! k)" and "digit_val (''0123456789'' ! k) = k"
    and "not_sign (''0123456789'' ! k)"
proof -
  from assms have "k = 0 \<or> k = 1 \<or> k = 2 \<or> k = 3 \<or> k = 4 \<or> k = 5 \<or> k = 6 \<or> k = 7
      \<or> k = 8 \<or> k = 9"
    by arith
  then show "isdigit (''0123456789'' ! k)" and "digit_val (''0123456789'' ! k) = k"
    and "not_sign (''0123456789'' ! k)"
    by (auto simp: isdigit_def digit_val_def not_sign_def)
qed

lemma zfill_1: "n < 10 \<Longrightarrow> zfill (Suc 0) n = [''0123456789'' ! n]"
  by (simp add: zfill_def digits.simps)

lemma zfill_Suc:
  assumes "0 < w"
  shows "zfill (Suc w) n = zfill w (n div 10) @ [''0123456789'' ! (n mod 10)]"
proof (cases "n < 10")
  case True
  then have d: "digits n = [''0123456789'' ! n]" "digits 0 = ''0''" "n div 10 = 0"
    by (simp_all add: digits.simps)
  from assms obtain v where v: "w = Suc v"
    by (cases w) simp_all
  have "replicate (Suc v) (CHR ''0'') = replicate v (CHR ''0'') @ ''0''"
    by (simp add: replicate_append_same)
  with True show ?thesis
    by (simp add: zfill_def d v)
next
  case False
  then have "digits n = digits (n div 10) @ [''0123456789'' ! (n mod 10)]"
    by (subst digits.simps) simp
  then show ?thesis
    by (simp add: zfill_def Suc_diff_le)
qed


lemma zfill_digits:
  "0 < w \<Longrightarrow> n < 10 ^ w \<Longrightarrow>
    length (zfill w n) = w \<and> all_digits (zfill w n) \<and> int_of_digits (zfill w n) = n
    \<and> list_all not_sign (zfill w n)"
proof (induction w arbitrary: n)
  case 0
  then show ?case by simp
next
  case (Suc w)
  show ?case
  proof (cases "w = 0")
    case True
    with Suc.prems have "n < 10" by simp
    then show ?thesis
      by (simp add: True zfill_1 digit_char all_digits_def int_of_digits_def)
  next
    case False
    from Suc.prems have "n div 10 < 10 ^ w"
      by (simp add: less_mult_imp_div_less mult.commute)
    with False Suc.IH [of "n div 10"] have
      ih: "length (zfill w (n div 10)) = w" "all_digits (zfill w (n div 10))"
        "int_of_digits (zfill w (n div 10)) = n div 10"
        "list_all not_sign (zfill w (n div 10))"
      by simp_all
    have "n mod 10 < 10" by simp
    with False ih show ?thesis
      by (simp add: zfill_Suc digit_char all_digits_def int_of_digits_def)
  qed
qed


lemma parse_isoformat_date_fields:
  assumes "length Y = 4" "length M = 2" "length D = 2"
    and "all_digits Y" "all_digits M" "all_digits D"
  shows "parse_isoformat_date (Y @ ''-'' @ M @ ''-'' @ D)
    = Inr (int_of_digits Y, int_of_digits M, int_of_digits D)"
  using assms by (simp add: parse_isoformat_date_def nth_append)

lemma two_digits_fields:
  "length H = 2 \<Longrightarrow> all_digits H \<Longrightarrow> two_digits (H @ r) = Some (int_of_digits H, r)"
  by (simp add: two_digits_def)

lemma parse_hh_mm_ss_fields:
  assumes "length H = 2" "length M = 2" "length S = 2"
    and "all_digits H" "all_digits M" "all_digits S"
  shows "parse_hh_mm_ss_ff (H @ '':'' @ M @ '':'' @ S)
      = Inr (int_of_digits H, int_of_digits M, int_of_digits S, 0)"
    and "length F = 6 \<Longrightarrow> all_digits F \<Longrightarrow>
      parse_hh_mm_ss_ff (H @ '':'' @ M @ '':'' @ S @ ''.'' @ F)
      = Inr (int_of_digits H, int_of_digits M, int_of_digits S, int_of_digits F)"
  using assms two_digits_fields [of S "[]"]
  by (simp_all add: parse_hh_mm_ss_ff_def two_digits_fields)

lemma takeWhile_all: "list_all P xs \<Longrightarrow> takeWhile P xs = xs \<and> dropWhile P xs = []"
  by (induction xs) simp_all

lemma parse_isoformat_time_fields:
  assumes "list_all not_sign t" "parse_hh_mm_ss_ff t = Inr c"
  shows "parse_isoformat_time t = Inr (c, None)"
  using assms by (simp add: parse_isoformat_time_def takeWhile_all parse_tz_def)

lemma days_in_month_le: "m \<le> 12 \<Longrightarrow> days_in_month y m \<le> 31"
proof -
  assume "m \<le> 12"
  then have "m = 0 \<or> m = 1 \<or> m = 2 \<or> m = 3 \<or> m = 4 \<or> m = 5 \<or> m = 6 \<or> m = 7 \<or> m = 8
      \<or> m = 9 \<or> m = 10 \<or> m = 11 \<or> m = 12"
    by arith
  then show ?thesis
    by (auto simp: days_in_month_def DAYS_IN_MONTH_def)
qed

lemma fromisoformat_isoformat:
  assumes "valid_naive d"
  shows "fromisoformat (isoformat d) = Inr d"
proof -
  from assms have r: "year d < 10 ^ 4" "month d < 10 ^ 2" "day d < 10 ^ 2" "hour d < 10 ^ 2"
    "minute d < 10 ^ 2" "second d < 10 ^ 2" "microsecond d < 10 ^ 6"
    using days_in_month_le [of "month d" "year d"] by (simp_all add: valid_naive_def)
  define Y M D H Mi S F where "Y = zfill 4 (year d)" and "M = zfill 2 (month d)"
    and "D = zfill 2 (day d)" and "H = zfill 2 (hour d)" and "Mi = zfill 2 (minute d)"
    and "S = zfill 2 (second d)" and "F = zfill 6 (microsecond d)"
  note defs = Y_def M_def D_def H_def Mi_def S_def F_def
  have Y: "length Y = 4" "all_digits Y" "int_of_digits Y = year d" "list_all not_sign Y"
    using zfill_digits [of 4 "year d"] r by (simp_all add: defs)
  have M: "length M = 2" "all_digits M" "int_of_digits M = month d" "list_all not_sign M"
    using zfill_digits [of 2 "month d"] r by (simp_all add: defs)
  have D: "length D = 2" "all_digits D" "int_of_digits D = day d" "list_all not_sign D"
    using zfill_digits [of 2 "day d"] r by (simp_all add: defs)
  have H: "length H = 2" "all_digits H" "int_of_digits H = hour d" "list_all not_sign H"
    using zfill_digits [of 2 "hour d"] r by (simp_all add: defs)
  have Mi: "length Mi = 2" "all_digits Mi" "int_of_digits Mi = minute d"
    "list_all not_sign Mi"
    using zfill_digits [of 2 "minute d"] r by (simp_all add: defs)
  have S: "length S = 2" "all_digits S" "int_of_digits S = second d" "list_all not_sign S"
    using zfill_digits [of 2 "second d"] r by (simp_all add: defs)
  have F: "length F = 6" "all_digits F" "int_of_digits F = microsecond d"
    "list_all not_sign F"
    using zfill_digits [of 6 "microsecond d"] r by (simp_all add: defs)
  define fr where "fr = (if microsecond d \<noteq> 0 then ''.'' @ F else [])"
  define t where "t = H @ '':'' @ Mi @ '':'' @ S @ fr"
  have iso: "isoformat d = (Y @ ''-'' @ M @ ''-'' @ D) @ ''T'' @ t"
    using assms by (simp add: isoformat_def valid_naive_def defs t_def fr_def)
  have len: "length (Y @ ''-'' @ M @ ''-'' @ D) = 10"
    by (simp add: Y M D)
  have tk: "take 10 (isoformat d) = Y @ ''-'' @ M @ ''-'' @ D"
    "drop 11 (isoformat d) = t" "length (isoformat d) \<noteq> 10"
    unfolding iso using len by (simp_all del: append_assoc append.simps)
  have date: "parse_isoformat_date (Y @ ''-'' @ M @ ''-'' @ D)
      = Inr (year d, month d, day d)"
    using parse_isoformat_date_fields [of Y M D] Y M D by simp
  have "parse_hh_mm_ss_ff t = Inr (hour d, minute d, second d, microsecond d)"
    using parse_hh_mm_ss_fields(1) [where H = H and M = Mi and S = S]
      parse_hh_mm_ss_fields(2) [where H = H and M = Mi and S = S and F = F] H Mi S F
    by (simp add: t_def fr_def)
  moreover have "list_all not_sign t"
    by (simp add: t_def fr_def H Mi S F not_sign_def)
  ultimately have time: "parse_isoformat_time t
      = Inr ((hour d, minute d, second d, microsecond d), None)"
    by (simp add: parse_isoformat_time_fields)
  from assms have "make_datetime (year d) (month d) (day d) (hour d) (minute d) (second d)
      (microsecond d) None = Inr d"
    by (simp add: make_datetime_def valid_naive_def)
  then show ?thesis
    unfolding fromisoformat_def tk date by (simp add: tk time)
qed

lemma strptime_valid: "strptime_mdY s = Inr d \<Longrightarrow> valid_naive d"
  by (auto simp: strptime_mdY_def make_datetime_def valid_naive_def Let_def
      split: if_splits option.splits)


lemma iso_8601_fields:
  assumes "length Y = 4" "length M = 2" "length D = 2" "length H = 2" "length Mi = 2"
    "length S = 2"
    and "all_digits Y" "all_digits M" "all_digits D" "all_digits H" "all_digits Mi"
    "all_digits S"
    and "1 \<le> int_of_digits M" "int_of_digits M \<le> 12" "1 \<le> int_of_digits D"
    "int_of_digits D \<le> days_in_month (int_of_digits Y) (int_of_digits M)"
    "int_of_digits H < 24" "int_of_digits Mi < 60" "int_of_digits S < 60"
    and "fr = [] \<or> (\<exists>F. fr = ''.'' @ F \<and> length F = 6 \<and> all_digits F)"
  shows "iso_8601 (Y @ ''-'' @ M @ ''-'' @ D @ ''T'' @ H @ '':'' @ Mi @ '':'' @ S @ fr)"
  using assms by (auto simp: iso_8601_def nth_append)

lemma iso_8601_isoformat:
  assumes "valid_naive d"
  shows "iso_8601 (isoformat d)"
proof -
  from assms have r: "year d < 10 ^ 4" "month d < 10 ^ 2" "day d < 10 ^ 2" "hour d < 10 ^ 2"
    "minute d < 10 ^ 2" "second d < 10 ^ 2" "microsecond d < 10 ^ 6"
    using days_in_month_le [of "month d" "year d"] by (simp_all add: valid_naive_def)
  have z: "length (zfill 4 (year d)) = 4" "all_digits (zfill 4 (year d))"
      "int_of_digits (zfill 4 (year d)) = year d"
      "length (zfill 2 (month d)) = 2" "all_digits (zfill 2 (month d))"
      "int_of_digits (zfill 2 (month d)) = month d"
      "length (zfill 2 (day d)) = 2" "all_digits (zfill 2 (day d))"
      "int_of_digits (zfill 2 (day d)) = day d"
      "length (zfill 2 (hour d)) = 2" "all_digits (zfill 2 (hour d))"
      "int_of_digits (zfill 2 (hour d)) = hour d"
      "length (zfill 2 (minute d)) = 2" "all_digits (zfill 2 (minute d))"
      "int_of_digits (zfill 2 (minute d)) = minute d"
      "length (zfill 2 (second d)) = 2" "all_digits (zfill 2 (second d))"
      "int_of_digits (zfill 2 (second d)) = second d"
      "length (zfill 6 (microsecond d)) = 6" "all_digits (zfill 6 (microsecond d))"
    using zfill_digits [of 4 "year d"] zfill_digits [of 2 "month d"]
      zfill_digits [of 2 "day d"] zfill_digits [of 2 "hour d"]
      zfill_digits [of 2 "minute d"] zfill_digits [of 2 "second d"]
      zfill_digits [of 6 "microsecond d"] r
    by simp_all
  have "iso_8601 (zfill 4 (year d) @ ''-'' @ zfill 2 (month d) @ ''-'' @ zfill 2 (day d)
      @ ''T'' @ zfill 2 (hour d) @ '':'' @ zfill 2 (minute d) @ '':'' @ zfill 2 (second d)
      @ (if microsecond d \<noteq> 0 then ''.'' @ zfill 6 (microsecond d) else []))"
    using assms by (intro iso_8601_fields) (simp_all add: z valid_naive_def)
  with assms show ?thesis
    by (simp add: isoformat_def valid_naive_def)
qed

section \<open>Properties of the classification\<close>

lemma z_date_parses:
  "fromisoformat (replace_Z ''2999-01-01T00:00:00Z'')
     = Inr ((naive 2999 1 1 0 0 0)\<lparr>tzinfo := Some 0\<rparr>)"
  by (simp add: iso_evals parse_evals naive_def)

lemma sample_date_parses:
  "fromisoformat (replace_Z ''2025-03-15T00:00:00'') = Inr (naive 2025 3 15 0 0 0)"
  by (simp add: iso_evals parse_evals naive_def)

lemma failing_world_now: "fst (datetime_now failing_world) = naive 2025 3 12 14 30 0"
  by (simp add: datetime_now_def failing_world_def naive_def)

lemma failing_world_steady: "steady failing_world (naive 2025 3 12 14 30 0)"
  by (simp add: steady_def failing_world_def)

lemma failing_world_summaries:
  "meeting ''agency'' = Some a \<Longrightarrow> meeting ''date'' = Some d \<Longrightarrow> remote w = (\<lambda>k req. Inl APIError)
     \<Longrightarrow> summarize_agenda meeting w
           = (Inr ''Summary unavailable - please check the agenda directly.'', w)"
  "meeting ''agency'' = Some a \<Longrightarrow> meeting ''date'' = Some d \<Longrightarrow> remote w = (\<lambda>k req. Inl APIError)
     \<Longrightarrow> summarize_minutes meeting w = (Inr ''Summary unavailable.'', w)"
  by (simp_all add: summarize_agenda_def summarize_minutes_def getitem_def
      chat_completions_create_def first_content_def try_except_def)

lemma failing_world_themes:
  "content_lines ms = Inr ls \<Longrightarrow> remote w = (\<lambda>k req. Inl APIError)
     \<Longrightarrow> find_common_themes ms w = (Inr (JArray []), w)"
  by (simp add: find_common_themes_def chat_completions_create_def first_content_def)

lemma select_meetings_remote:
  "remote (snd (select_meetings keep ms w)) = remote w"
  by (induction ms arbitrary: w)
     (simp_all add: split_beta is_upcoming_def getitem_def datetime_now_def
        split: option.splits pyval.splits sum.splits)

text \<open>
  Claim C1 fails on the code. The date \<^verbatim>\<open>2999-01-01T00:00:00Z\<close> is an ISO-8601 time with
  the UTC marker: \<^verbatim>\<open>_is_upcoming\<close> replaces the \<^verbatim>\<open>Z\<close> and parses it, to an aware value
  in the year 2999. The clock reads 2025-03-12 at 14:30, a naive value; comparing the two
  raises \<^verbatim>\<open>TypeError\<close>, the bare \<^verbatim>\<open>except\<close> returns \<^verbatim>\<open>False\<close>, and the record is
  listed under \<^verbatim>\<open>recent_minutes\<close> and not under \<^verbatim>\<open>upcoming_meetings\<close>.
\<close>

theorem z_date_classified_recent:
  "getitem z_meeting ''date'' = Inr (Str ''2999-01-01T00:00:00Z'')
   \<and> fromisoformat (replace_Z ''2999-01-01T00:00:00Z'')
       = Inr ((naive 2999 1 1 0 0 0)\<lparr>tzinfo := Some 0\<rparr>)
   \<and> fst (datetime_now failing_world) = naive 2025 3 12 14 30 0
   \<and> dt_greater ((naive 2999 1 1 0 0 0)\<lparr>tzinfo := Some 0\<rparr>) (naive 2025 3 12 14 30 0)
       = Inl TypeError
   \<and> fst (is_upcoming z_meeting failing_world) = False
   \<and> fst (process_meetings [z_meeting] failing_world)
       = Inr \<lparr>upcoming_meetings = [],
               recent_minutes = [z_recent_entry],
               themes = JArray [],
               total_meetings = 1\<rparr>"
proof -
  have d: "z_meeting ''date'' = Some (Str ''2999-01-01T00:00:00Z'')"
    and a: "z_meeting ''agency'' = Some (Str ''Kern County Board of Supervisors'')"
    by (simp_all add: z_meeting_def)
  have cmp: "dt_greater ((naive 2999 1 1 0 0 0)\<lparr>tzinfo := Some 0\<rparr>)
               (naive 2025 3 12 14 30 0) = Inl TypeError"
    by (simp add: dt_greater_def dt_less_def naive_def)
  have up: "upcoming_at now z_meeting = False" for now
    by (rule aware_never_upcoming [where s = "''2999-01-01T00:00:00Z''"
          and d = "(naive 2999 1 1 0 0 0)\<lparr>tzinfo := Some 0\<rparr>"])
       (simp_all add: d z_date_parses)
  have iu: "fst (is_upcoming z_meeting failing_world) = False"
    by (simp add: is_upcoming_at up)
  have s1: "fst (select_meetings True [z_meeting] w) = []"
    and s2: "fst (select_meetings False [z_meeting] w) = [z_meeting]" for w
    by (simp_all add: split_beta is_upcoming_at up)
  define w1 where "w1 = snd (select_meetings True [z_meeting] failing_world)"
  define w2 where "w2 = snd (select_meetings False [z_meeting] w1)"
  have r: "remote w2 = (\<lambda>k req. Inl APIError)"
    by (simp add: w2_def w1_def select_meetings_remote failing_world_def
          del: select_meetings.simps)
  have entry: "recent_entry z_meeting ''Summary unavailable.'' = Inr z_recent_entry"
    by (simp add: recent_entry_def getitem_def get_default_def z_meeting_def
          z_recent_entry_def)
  have cl: "content_lines [z_meeting] = Inr [''Kern County Board of Supervisors: ''
              @ ''<tr class=meeting><td>1/1/2999</td></tr>'']"
    by (simp add: getitem_def get_default_def z_meeting_def)
  have pm: "fst (process_meetings [z_meeting] failing_world)
       = Inr \<lparr>upcoming_meetings = [],
               recent_minutes = [z_recent_entry],
               themes = JArray [],
               total_meetings = 1\<rparr>"
    unfolding process_meetings_def
    by (simp add: split_beta s1 s2 process_upcoming_meetings_def process_recent_meetings_def
          failing_world_summaries(2) [OF a d r] entry failing_world_themes [OF cl r]
          del: select_meetings.simps flip: w1_def w2_def)
  from d z_date_parses failing_world_now cmp iu pm show ?thesis
    by (simp add: getitem_def)
qed

section \<open>Properties of the Granicus parser\<close>

lemma lex_less_irrefl: "\<not> lex_less xs xs"
  by (induction xs) simp_all

lemma in_week_same: "tzinfo d = None \<Longrightarrow> in_week d d d = Inr True"
  by (simp add: in_week_def dt_le_def dt_less_def lex_less_irrefl)

lemma parse_granicus_meeting_in_week:
  assumes "find_date_text element = Inr (Some t)" and "strptime_mdY (strip t) = Inr d"
    and "in_week ws d we = Inr True"
  shows "\<exists>m. parse_granicus_meeting to_str element cfg ws we = Some m
             \<and> m ''date'' = Some (Str (isoformat d))
             \<and> granicus_rows to_str [element] cfg ws we [] = [m]"
  using assms agenda_url_of_cases [of element]
  by (auto simp: parse_granicus_meeting_def parse_granicus_body_def try_except_def)

lemma parse_granicus_meeting_outside:
  assumes "find_date_text element = Inr (Some t)" and "strptime_mdY (strip t) = Inr d"
    and "in_week ws d we \<noteq> Inr True"
  shows "parse_granicus_meeting to_str element cfg ws we = None"
  using assms
  by (auto simp: parse_granicus_meeting_def parse_granicus_body_def try_except_def
      split: sum.splits bool.splits)

lemma strptime_example: "strptime_mdY ''3/15/2025'' = Inr (naive 2025 3 15 0 0 0)"
  by (simp add: parse_evals naive_def)

lemma in_week_example:
  "in_week (naive 2025 3 10 0 0 0) (naive 2025 3 15 0 0 0) (naive 2025 3 16 0 0 0) = Inr True"
  by (simp add: compare_evals)

lemma isoformat_example: "isoformat (naive 2025 3 15 0 0 0) = ''2025-03-15T00:00:00''"
  by (simp add: format_evals)

text \<open>
  Claim C2, as amended. The parser reads the first string below the element that the
  pattern \<^verbatim>\<open>\d{1,2}/\d{1,2}/\d{4}\<close> matches and parses the whole of it, stripped, as
  month/day/year. When that string is \<^verbatim>\<open>3/15/2025\<close> and the window is
  [2025-03-10, 2025-03-16], the parser returns one record, dated
  \<^verbatim>\<open>2025-03-15T00:00:00\<close>. For every window, a date inside the window
  \<open>week_start \<le> date \<le> week_end\<close> gives one record with that date and a date
  outside gives none; the bounds are inclusive; and an element with no matching string,
  or whose string does not parse as month/day/year, gives no record and no exception.
\<close>

theorem granicus_window:
  "(find_date_text element = Inr None \<longrightarrow> parse_granicus_meeting to_str element cfg ws we = None)
   \<and> (\<forall>t. find_date_text element = Inr (Some t) \<longrightarrow>
         (case strptime_mdY (strip t) of
            Inl e \<Rightarrow> parse_granicus_meeting to_str element cfg ws we = None
          | Inr d \<Rightarrow>
              if in_week ws d we = Inr True
              then \<exists>m. parse_granicus_meeting to_str element cfg ws we = Some m
                       \<and> m ''date'' = Some (Str (isoformat d))
                       \<and> granicus_rows to_str [element] cfg ws we [] = [m]
              else parse_granicus_meeting to_str element cfg ws we = None
                   \<and> granicus_rows to_str [element] cfg ws we [] = []))
   \<and> (\<forall>t. find_date_text element = Inr (Some t) \<and> strip t = ''3/15/2025'' \<longrightarrow>
         (\<exists>m. parse_granicus_meeting to_str element cfg (naive 2025 3 10 0 0 0) (naive 2025 3 16 0 0 0)
                 = Some m
              \<and> m ''date'' = Some (Str ''2025-03-15T00:00:00'')
              \<and> granicus_rows to_str [element] cfg (naive 2025 3 10 0 0 0) (naive 2025 3 16 0 0 0) []
                  = [m]))
   \<and> (\<forall>d. tzinfo d = None \<longrightarrow> in_week d d d = Inr True)"
proof (intro conjI allI impI)
  assume "find_date_text element = Inr None"
  then show "parse_granicus_meeting to_str element cfg ws we = None"
    by (simp add: parse_granicus_meeting_def parse_granicus_body_def try_except_def)
next
  fix t
  assume t: "find_date_text element = Inr (Some t)"
  show "case strptime_mdY (strip t) of
          Inl e \<Rightarrow> parse_granicus_meeting to_str element cfg ws we = None
        | Inr d \<Rightarrow>
            if in_week ws d we = Inr True
            then \<exists>m. parse_granicus_meeting to_str element cfg ws we = Some m
                     \<and> m ''date'' = Some (Str (isoformat d))
                     \<and> granicus_rows to_str [element] cfg ws we [] = [m]
            else parse_granicus_meeting to_str element cfg ws we = None
                 \<and> granicus_rows to_str [element] cfg ws we [] = []"
  proof (cases "strptime_mdY (strip t)")
    case (Inl e)
    with t show ?thesis
      by (simp add: parse_granicus_meeting_def parse_granicus_body_def try_except_def)
  next
    case (Inr d)
    show ?thesis
    proof (cases "in_week ws d we = Inr True")
      case True
      with Inr parse_granicus_meeting_in_week [OF t Inr True, where cfg = cfg and to_str = to_str] show ?thesis by simp
    next
      case False
      with Inr parse_granicus_meeting_outside [OF t Inr False, where cfg = cfg and to_str = to_str] show ?thesis by simp
    qed
  qed
next
  fix t
  assume "find_date_text element = Inr (Some t) \<and> strip t = ''3/15/2025''"
  then have t: "find_date_text element = Inr (Some t)"
    and d: "strptime_mdY (strip t) = Inr (naive 2025 3 15 0 0 0)"
    by (simp_all add: strptime_example)
  from parse_granicus_meeting_in_week [OF t d in_week_example, where cfg = cfg and to_str = to_str]
  show "\<exists>m. parse_granicus_meeting to_str element cfg (naive 2025 3 10 0 0 0) (naive 2025 3 16 0 0 0)
               = Some m
            \<and> m ''date'' = Some (Str ''2025-03-15T00:00:00'')
            \<and> granicus_rows to_str [element] cfg (naive 2025 3 10 0 0 0) (naive 2025 3 16 0 0 0) []
                = [m]"
    by (simp add: isoformat_example)
next
  fix d :: datetime
  assume "tzinfo d = None"
  then show "in_week d d d = Inr True" by (rule in_week_same)
qed

theorem granicus_window_witness:
  "find_date_text meeting_row = Inr (Some ''3/15/2025'')
   \<and> strip ''3/15/2025'' = ''3/15/2025''
   \<and> (\<exists>m. parse_granicus_meeting example_markup meeting_row county_supervisors
              (naive 2025 3 10 0 0 0) (naive 2025 3 16 0 0 0) = Some m
          \<and> m ''date'' = Some (Str ''2025-03-15T00:00:00''))
   \<and> find_date_text later_row = Inr (Some ''3/20/2025'')
   \<and> parse_granicus_meeting example_markup later_row county_supervisors
        (naive 2025 3 10 0 0 0) (naive 2025 3 16 0 0 0) = None
   \<and> find_date_text meeting_link = Inr None
   \<and> parse_granicus_meeting example_markup meeting_link county_supervisors
        (naive 2025 3 10 0 0 0) (naive 2025 3 16 0 0 0) = None"
proof -
  have fd: "find_date_text meeting_row = Inr (Some ''3/15/2025'')"
    by (simp add: meeting_row_def html_evals parse_evals)
  have st: "strip ''3/15/2025'' = ''3/15/2025''"
    by (simp add: string_evals)
  have fl: "find_date_text later_row = Inr (Some ''3/20/2025'')"
    by (simp add: later_row_def html_evals parse_evals)
  have sl: "strptime_mdY (strip ''3/20/2025'') = Inr (naive 2025 3 20 0 0 0)"
    by (simp add: string_evals parse_evals naive_def)
  have ol: "in_week (naive 2025 3 10 0 0 0) (naive 2025 3 20 0 0 0) (naive 2025 3 16 0 0 0)
              = Inr False"
    by (simp add: compare_evals)
  have fn: "find_date_text meeting_link = Inr None"
    by (simp add: meeting_link_def html_evals parse_evals)
  note row = granicus_window [where element = meeting_row and cfg = county_supervisors
      and ws = "naive 2025 3 10 0 0 0" and we = "naive 2025 3 16 0 0 0"]
  note later = granicus_window [where element = later_row and cfg = county_supervisors
      and ws = "naive 2025 3 10 0 0 0" and we = "naive 2025 3 16 0 0 0"]
  note link = granicus_window [where element = meeting_link and cfg = county_supervisors
      and ws = "naive 2025 3 10 0 0 0" and we = "naive 2025 3 16 0 0 0"]
  have 1: "\<exists>m. parse_granicus_meeting example_markup meeting_row county_supervisors
              (naive 2025 3 10 0 0 0) (naive 2025 3 16 0 0 0) = Some m
          \<and> m ''date'' = Some (Str ''2025-03-15T00:00:00'')"
    using row fd st by blast
  have 2: "parse_granicus_meeting example_markup later_row county_supervisors
        (naive 2025 3 10 0 0 0) (naive 2025 3 16 0 0 0) = None"
    using later fl sl ol by (auto split: sum.splits if_splits)
  have 3: "parse_granicus_meeting example_markup meeting_link county_supervisors
        (naive 2025 3 10 0 0 0) (naive 2025 3 16 0 0 0) = None"
    using link fn by blast
  from fd st 1 fl 2 fn 3 show ?thesis by blast
qed

text \<open>
  Claim C2 as stated fails: the text of \<open>titled_row\<close> contains \<^verbatim>\<open>3/15/2025\<close>, but the
  string that holds it is \<^verbatim>\<open>Board Meeting 3/15/2025\<close>, which \<^verbatim>\<open>strptime\<close> rejects, and
  the parser returns no record.
\<close>

theorem granicus_text_around_date:
  "contains (get_text titled_row) ''3/15/2025''
   \<and> parse_granicus_meeting example_markup titled_row county_supervisors
        (naive 2025 3 10 0 0 0) (naive 2025 3 16 0 0 0) = None"
proof -
  have c: "contains (get_text titled_row) ''3/15/2025''"
    by (simp add: titled_row_def)
  have fd: "find_date_text titled_row = Inr (Some ''Board Meeting 3/15/2025'')"
    by (simp add: titled_row_def html_evals parse_evals)
  have sp: "strptime_mdY (strip ''Board Meeting 3/15/2025'') = Inl ValueError"
    by (simp add: string_evals parse_evals)
  from c fd sp show ?thesis
    by (simp add: parse_granicus_meeting_def parse_granicus_body_def try_except_def)
qed

section \<open>The week window of a run\<close>

lemmas calendar_evals =
  week_range_def datetime_now_def add_days_def weekday_def toordinal_def ymd2ord_def
  ord2ymd_def days_before_year_def days_before_month_def is_leap_def MAXORDINAL_def
  DAYS_BEFORE_MONTH_def DAYS_IN_MONTH_def naive_def Let_def

lemma week_range_wednesday:
  "fst (week_range monday_world) = Inr (naive 2025 3 10 14 30 0, naive 2025 3 16 14 30 0)"
  by (simp add: monday_world_def calendar_evals)

lemma monday_row_dropped:
  "parse_granicus_meeting to_str monday_row cfg (naive 2025 3 10 14 30 0) (naive 2025 3 16 14 30 0)
     = None"
proof -
  have fd: "find_date_text monday_row = Inr (Some ''3/10/2025'')"
    by (simp add: monday_row_def html_evals parse_evals)
  have sp: "strptime_mdY (strip ''3/10/2025'') = Inr (naive 2025 3 10 0 0 0)"
    by (simp add: string_evals parse_evals naive_def)
  have iw: "in_week (naive 2025 3 10 14 30 0) (naive 2025 3 10 0 0 0) (naive 2025 3 16 14 30 0)
              = Inr False"
    by (simp add: compare_evals)
  show ?thesis
    by (simp add: parse_granicus_meeting_def parse_granicus_body_def try_except_def fd sp iw)
qed

lemma add_days_time_of_day:
  assumes "add_days d k = Inr d'"
  shows "hour d' = hour d \<and> minute d' = minute d \<and> second d' = second d
       \<and> microsecond d' = microsecond d \<and> tzinfo d' = tzinfo d"
  using assms by (auto simp: add_days_def Let_def split: if_splits prod.splits)

lemma week_range_time_of_day:
  assumes "fst (week_range w) = Inr (week_start, week_end)"
  shows "hour week_start = hour (clock w 0) \<and> minute week_start = minute (clock w 0)
       \<and> second week_start = second (clock w 0)
       \<and> microsecond week_start = microsecond (clock w 0)
       \<and> hour week_end = hour (clock w 0) \<and> minute week_end = minute (clock w 0)
       \<and> second week_end = second (clock w 0)
       \<and> microsecond week_end = microsecond (clock w 0)"
proof -
  let ?today = "fst (datetime_now w)"
  from assms obtain ws where ws: "add_days ?today (- int (weekday ?today)) = Inr ws"
    and we: "add_days ws 6 = Inr week_end" and eq: "week_start = ws"
    by (auto simp: week_range_def split_beta split: sum.splits)
  from add_days_time_of_day [OF ws] add_days_time_of_day [OF we] eq show ?thesis
    by (simp add: datetime_now_def)
qed

text \<open>
  Claim C3 fails on the code. On Wednesday 2025-03-12 at 14:30 the window that \<^verbatim>\<open>main\<close>
  computes runs from Monday 2025-03-10 at 14:30 to Sunday 2025-03-16 at 14:30: the time
  of day of the run is kept, as it is in every run (\<open>week_range_time_of_day\<close>). A
  Granicus meeting dated Monday 3/10/2025 is parsed as 2025-03-10 at 00:00, which is
  before the start of the window, and no record of it reaches the caller.
\<close>

theorem monday_meeting_outside_week_range:
  "fst (week_range monday_world) = Inr (naive 2025 3 10 14 30 0, naive 2025 3 16 14 30 0)
   \<and> weekday (naive 2025 3 10 0 0 0) = 0
   \<and> find_all_meeting_rows monday_page = [monday_row]
   \<and> parse_granicus_meeting example_markup monday_row county_supervisors
        (naive 2025 3 10 14 30 0) (naive 2025 3 16 14 30 0) = None
   \<and> fst (main_scrape monday_world) = Inr []"
proof -
  have wd: "weekday (naive 2025 3 10 0 0 0) = 0"
    by (simp add: calendar_evals)
  have rows: "find_all_meeting_rows monday_page = [monday_row]"
    by (simp add: find_all_meeting_rows_def monday_page_def monday_row_def string_evals)
  have links: "find_all_meeting_links monday_page = []"
    by (simp add: find_all_meeting_links_def monday_page_def monday_row_def)
  have g: "contains ''https://kernco.granicus.com'' ''granicus''"
    and l: "\<not> contains ''https://bakersfield.legistar.com'' ''granicus''"
           "contains ''https://bakersfield.legistar.com'' ''legistar''"
    by simp_all
  obtain w1 where wr: "week_range monday_world
      = (Inr (naive 2025 3 10 14 30 0, naive 2025 3 16 14 30 0), w1)"
    and h: "http w1 = (\<lambda>k url. Inr monday_page)"
    by (simp add: monday_world_def calendar_evals)
  have "fst (scrape_weekly_meetings (naive 2025 3 10 14 30 0) (naive 2025 3 16 14 30 0) w1)
          = []"
    by (simp add: scrape_weekly_meetings_def sources_def scrape_source_def g l
          scrape_granicus_def scrape_legistar_def session_get_def h rows links
          monday_row_dropped)
  then have ms: "fst (main_scrape monday_world) = Inr []"
    by (auto simp: main_scrape_def wr split: prod.splits)
  from week_range_wednesday wd rows monday_row_dropped ms show ?thesis by simp
qed

section \<open>Properties of the Legistar parser\<close>

lemma legistar_links_window:
  "legistar_links links cfg ws we meetings w = legistar_links links cfg ws' we' meetings w"
  by (induction links arbitrary: meetings w)
     (simp_all add: parse_legistar_meeting_def split: sum.splits prod.splits)

lemma meeting_link_href:
  assumes "is_meeting_link element"
  obtains n attrs cs href where "element = Tag n attrs cs" and "map_of attrs ''href'' = Some href"
  using assms by (cases element) (auto split: option.splits)

lemma legistar_links_length:
  assumes "\<forall>l \<in> set links. is_meeting_link l"
  shows "length (fst (legistar_links links cfg ws we meetings w)) = length meetings + length links"
  using assms
proof (induction links arbitrary: meetings w)
  case Nil
  then show ?case by simp
next
  case (Cons l links)
  from Cons.prems have "is_meeting_link l" by simp
  then obtain n attrs cs href where l: "l = Tag n attrs cs" "map_of attrs ''href'' = Some href"
    by (rule meeting_link_href)
  from Cons.prems have rest: "\<forall>l \<in> set links. is_meeting_link l" by simp
  show ?case
    using l Cons.IH [OF rest]
    by (simp add: parse_legistar_meeting_def Let_def split: prod.splits)
qed

lemma legistar_links_records:
  assumes "\<And>l w. l \<in> set links \<Longrightarrow>
    parse_legistar_meeting l cfg ws we w
      = (Some (R (clock w 0) l), w\<lparr>clock := (\<lambda>k. clock w (Suc k))\<rparr>)"
  shows "fst (legistar_links links cfg ws we meetings w)
    = meetings @ map (\<lambda>(k, link). R (clock w k) link) (enumerate 0 links)"
  using assms
proof (induction links arbitrary: meetings w)
  case Nil
  then show ?case by simp
next
  case (Cons l links)
  have p: "parse_legistar_meeting l cfg ws we w
      = (Some (R (clock w 0) l), w\<lparr>clock := (\<lambda>k. clock w (Suc k))\<rparr>)"
    by (rule Cons.prems) simp
  have e: "enumerate (Suc 0) links = map (\<lambda>(k, link). (Suc k, link)) (enumerate 0 links)"
    by (simp add: enumerate_Suc_eq apfst_def map_prod_def)
  have "fst (legistar_links links cfg ws we (meetings @ [R (clock w 0) l])
          (w\<lparr>clock := (\<lambda>k. clock w (Suc k))\<rparr>))
    = (meetings @ [R (clock w 0) l])
      @ map (\<lambda>(k, link). R (clock (w\<lparr>clock := (\<lambda>k. clock w (Suc k))\<rparr>) k) link)
          (enumerate 0 links)"
    by (rule Cons.IH) (rule Cons.prems, simp)
  then show ?case
    by (simp add: p e split_beta comp_def)
qed

lemma meeting_links_href:
  "list_all (\<lambda>link. \<exists>href. elem_getitem link ''href'' = Inr href)
     (find_all_meeting_links soup)"
proof -
  have "\<exists>href. elem_getitem link ''href'' = Inr href" if "is_meeting_link link" for link
    using that by (rule meeting_link_href) simp
  then show ?thesis
    by (simp add: find_all_meeting_links_def list_all_iff)
qed

text \<open>
  Claim C4. For an anchor that \<^verbatim>\<open>find_all('a', href=re.compile(r'MeetingDetail', re.I))\<close>
  returns, the Legistar parser returns a record whose title is the stripped text of the
  link, whose \<^verbatim>\<open>agenda_url\<close> is \<^verbatim>\<open>base_url\<close> followed by the \<^verbatim>\<open>href\<close>, and whose date
  is the reading of the clock; the result is the same for every week window. After a
  fetch that succeeds, the caller of \<^verbatim>\<open>_scrape_legistar\<close> receives exactly these records,
  one for each such anchor of the page, in the order of the page: the record of anchor
  number \<open>k\<close> has the text and the \<^verbatim>\<open>href\<close> of that anchor and, as date, reading number
  \<open>k\<close> of the clock. Each of these anchors has an \<^verbatim>\<open>href\<close>.
\<close>

theorem legistar_record:
  assumes "is_meeting_link element"
  shows "(\<exists>href. elem_getitem element ''href'' = Inr href
           \<and> parse_legistar_meeting element cfg ws we w =
               (Some [''agency'' \<mapsto> Str (name cfg),
                      ''date'' \<mapsto> Str (isoformat (fst (datetime_now w))),
                      ''type'' \<mapsto> Str ''Regular Meeting'',
                      ''agenda_url'' \<mapsto> Str (base_url cfg @ href),
                      ''title'' \<mapsto> Str (strip (get_text element)),
                      ''source'' \<mapsto> Str ''legistar''],
                snd (datetime_now w)))
       \<and> parse_legistar_meeting element cfg ws we w
           = parse_legistar_meeting element cfg ws' we' w
       \<and> scrape_legistar cfg ws we w = scrape_legistar cfg ws' we' w
       \<and> (case http w 0 (base_url cfg @ meetings_path cfg) of
             Inl e \<Rightarrow> fst (scrape_legistar cfg ws we w) = []
           | Inr soup \<Rightarrow>
               length (fst (scrape_legistar cfg ws we w))
                 = length (find_all_meeting_links soup)
               \<and> list_all (\<lambda>link. \<exists>href. elem_getitem link ''href'' = Inr href)
                    (find_all_meeting_links soup)
               \<and> fst (scrape_legistar cfg ws we w)
                 = map (\<lambda>(k, link).
                     [''agency'' \<mapsto> Str (name cfg),
                      ''date'' \<mapsto> Str (isoformat ((clock w k)\<lparr>tzinfo := None\<rparr>)),
                      ''type'' \<mapsto> Str ''Regular Meeting'',
                      ''agenda_url''
                        \<mapsto> Str (base_url cfg @ projr (elem_getitem link ''href'')),
                      ''title'' \<mapsto> Str (strip (get_text link)),
                      ''source'' \<mapsto> Str ''legistar''])
                     (enumerate 0 (find_all_meeting_links soup)))"
proof -
  from assms obtain n attrs cs href where
    el: "element = Tag n attrs cs" "map_of attrs ''href'' = Some href"
    by (rule meeting_link_href)
  have 1: "\<exists>href. elem_getitem element ''href'' = Inr href
           \<and> parse_legistar_meeting element cfg ws we w =
               (Some [''agency'' \<mapsto> Str (name cfg),
                      ''date'' \<mapsto> Str (isoformat (fst (datetime_now w))),
                      ''type'' \<mapsto> Str ''Regular Meeting'',
                      ''agenda_url'' \<mapsto> Str (base_url cfg @ href),
                      ''title'' \<mapsto> Str (strip (get_text element)),
                      ''source'' \<mapsto> Str ''legistar''],
                snd (datetime_now w))"
    using el by (simp add: parse_legistar_meeting_def Let_def split: prod.splits)
  have 2: "parse_legistar_meeting element cfg ws we w
            = parse_legistar_meeting element cfg ws' we' w"
    by (simp add: parse_legistar_meeting_def)
  have 3: "scrape_legistar cfg ws we w = scrape_legistar cfg ws' we' w"
    by (simp add: scrape_legistar_def legistar_links_window [of _ cfg ws we _ _ ws' we']
          split: prod.splits sum.splits)
  have links: "\<forall>l \<in> set (find_all_meeting_links soup). is_meeting_link l" for soup
    by (simp add: find_all_meeting_links_def)
  have 4: "(case http w 0 (base_url cfg @ meetings_path cfg) of
             Inl e \<Rightarrow> fst (scrape_legistar cfg ws we w) = []
           | Inr soup \<Rightarrow>
               length (fst (scrape_legistar cfg ws we w))
                 = length (find_all_meeting_links soup)
               \<and> list_all (\<lambda>link. \<exists>href. elem_getitem link ''href'' = Inr href)
                    (find_all_meeting_links soup)
               \<and> fst (scrape_legistar cfg ws we w)
                 = map (\<lambda>(k, link).
                     [''agency'' \<mapsto> Str (name cfg),
                      ''date'' \<mapsto> Str (isoformat ((clock w k)\<lparr>tzinfo := None\<rparr>)),
                      ''type'' \<mapsto> Str ''Regular Meeting'',
                      ''agenda_url''
                        \<mapsto> Str (base_url cfg @ projr (elem_getitem link ''href'')),
                      ''title'' \<mapsto> Str (strip (get_text link)),
                      ''source'' \<mapsto> Str ''legistar''])
                     (enumerate 0 (find_all_meeting_links soup)))"
  proof (cases "http w 0 (base_url cfg @ meetings_path cfg)")
    case (Inl e)
    then show ?thesis
      by (simp add: scrape_legistar_def session_get_def)
  next
    case (Inr soup)
    let ?w1 = "w\<lparr>http := (\<lambda>k. http w (Suc k))\<rparr>"
    have p: "parse_legistar_meeting l cfg ws we v
        = (Some ((\<lambda>now link.
             [''agency'' \<mapsto> Str (name cfg),
              ''date'' \<mapsto> Str (isoformat (now\<lparr>tzinfo := None\<rparr>)),
              ''type'' \<mapsto> Str ''Regular Meeting'',
              ''agenda_url'' \<mapsto> Str (base_url cfg @ projr (elem_getitem link ''href'')),
              ''title'' \<mapsto> Str (strip (get_text link)),
              ''source'' \<mapsto> Str ''legistar'']) (clock v 0) l),
           v\<lparr>clock := (\<lambda>k. clock v (Suc k))\<rparr>)"
      if "l \<in> set (find_all_meeting_links soup)" for l v
    proof -
      from that links have "is_meeting_link l" by blast
      then obtain n attrs cs href where "l = Tag n attrs cs" "map_of attrs ''href'' = Some href"
        by (rule meeting_link_href)
      then show ?thesis
        by (simp add: parse_legistar_meeting_def datetime_now_def)
    qed
    have s: "fst (scrape_legistar cfg ws we w)
        = fst (legistar_links (find_all_meeting_links soup) cfg ws we [] ?w1)"
      using Inr by (simp add: scrape_legistar_def session_get_def)
    have c: "clock ?w1 = clock w"
      by simp
    show ?thesis
      unfolding Inr sum.case s
      using legistar_links_records [OF p, of "find_all_meeting_links soup" "[]" ?w1]
        legistar_links_length [OF links, of soup cfg ws we "[]" ?w1]
        meeting_links_href [of soup]
      by (simp only: c append_Nil list.size add_0 simp_thms)
  qed
  from 1 2 3 4 show ?thesis by blast
qed

text \<open>
  The theorem at the anchor \<open>meeting_link\<close> and at a calendar page that holds this one
  anchor, read on Wednesday 2025-03-12 at 14:30.
\<close>

theorem legistar_record_witness:
  "is_meeting_link meeting_link
   \<and> fst (parse_legistar_meeting meeting_link bakersfield_council
             (naive 2025 3 10 0 0 0) (naive 2025 3 16 0 0 0) calendar_world)
       = Some [''agency'' \<mapsto> Str ''Bakersfield City Council'',
               ''date'' \<mapsto> Str ''2025-03-12T14:30:00'',
               ''type'' \<mapsto> Str ''Regular Meeting'',
               ''agenda_url'' \<mapsto> Str ''https://bakersfield.legistar.com/MeetingDetail.aspx?ID=123'',
               ''title'' \<mapsto> Str ''City Council Regular Meeting'',
               ''source'' \<mapsto> Str ''legistar'']
   \<and> length (fst (scrape_legistar bakersfield_council
                      (naive 2025 3 10 0 0 0) (naive 2025 3 16 0 0 0) calendar_world)) = 1
   \<and> fst (scrape_legistar bakersfield_council
             (naive 2025 3 10 0 0 0) (naive 2025 3 16 0 0 0) calendar_world)
       = [[''agency'' \<mapsto> Str ''Bakersfield City Council'',
           ''date'' \<mapsto> Str ''2025-03-12T14:30:00'',
           ''type'' \<mapsto> Str ''Regular Meeting'',
           ''agenda_url'' \<mapsto> Str ''https://bakersfield.legistar.com/MeetingDetail.aspx?ID=123'',
           ''title'' \<mapsto> Str ''City Council Regular Meeting'',
           ''source'' \<mapsto> Str ''legistar'']]"
proof -
  have h: "is_meeting_link meeting_link"
    by (simp add: meeting_link_def icontains_def lower_char_def)
  have links: "find_all_meeting_links calendar_page = [meeting_link]"
    by (simp add: find_all_meeting_links_def calendar_page_def meeting_link_def
          icontains_def lower_char_def)
  have iso: "isoformat (fst (datetime_now calendar_world)) = ''2025-03-12T14:30:00''"
    "isoformat ((clock calendar_world 0)\<lparr>tzinfo := None\<rparr>) = ''2025-03-12T14:30:00''"
    by (simp_all add: datetime_now_def calendar_world_def isoformat_def naive_def zfill_def
          digits.simps)
  have title: "strip (get_text meeting_link) = ''City Council Regular Meeting''"
    by (simp add: meeting_link_def strip_def isspace_def)
  have href: "elem_getitem meeting_link ''href'' = Inr ''/MeetingDetail.aspx?ID=123''"
    by (simp add: meeting_link_def)
  have page: "http calendar_world 0 url = Inr calendar_page" for url
    by (simp add: calendar_world_def)
  from legistar_record [OF h, of bakersfield_council "naive 2025 3 10 0 0 0"
      "naive 2025 3 16 0 0 0" calendar_world]
  show ?thesis
    using h
    by (simp add: page links iso title href bakersfield_council_def)
qed

section \<open>Properties of the aggregator\<close>

lemma legistar_links_clock:
  assumes "clock w = clock w'"
  shows "fst (legistar_links links cfg ws we meetings w)
           = fst (legistar_links links cfg ws we meetings w')"
  using assms
proof (induction links arbitrary: meetings w w')
  case Nil
  then show ?case by simp
next
  case (Cons l links)
  show ?case
  proof (cases "elem_getitem l ''href''")
    case (Inl e)
    with Cons.IH [OF Cons.prems] show ?thesis
      by (simp add: parse_legistar_meeting_def)
  next
    case (Inr href)
    have c: "clock (snd (datetime_now w)) = clock (snd (datetime_now w'))"
      using Cons.prems by (simp add: datetime_now_def)
    have n: "fst (datetime_now w) = fst (datetime_now w')"
      using Cons.prems by (simp add: datetime_now_def)
    from Inr n Cons.IH [OF c] show ?thesis
      by (simp add: parse_legistar_meeting_def Let_def split_beta)
  qed
qed

lemma scrape_source_records:
  "fst (scrape_source key cfg ws we w)
     = Inr (source_records cfg ws we w (http w 0 (source_url cfg)))"
  "clock (snd (scrape_source key cfg ws we w)) = clock w
     \<or> contains (base_url cfg) ''legistar''"
  "http (snd (scrape_source key cfg ws we w))
     = (if contains (base_url cfg) ''granicus'' \<or> contains (base_url cfg) ''legistar''
        then (\<lambda>k. http w (Suc k)) else http w)"
  "str_of (snd (scrape_source key cfg ws we w)) = str_of w"
proof -
  let ?w1 = "w\<lparr>http := \<lambda>k. http w (Suc k)\<rparr>"
  have c: "clock ?w1 = clock w" by simp
  show "fst (scrape_source key cfg ws we w)
     = Inr (source_records cfg ws we w (http w 0 (source_url cfg)))"
    using legistar_links_clock [OF c]
    by (simp add: scrape_source_def source_records_def source_url_def scrape_granicus_def
          scrape_legistar_def session_get_def split_beta split: sum.splits)
  show "clock (snd (scrape_source key cfg ws we w)) = clock w
     \<or> contains (base_url cfg) ''legistar''"
    by (simp add: scrape_source_def scrape_granicus_def session_get_def split_beta
          split: sum.splits)
  have l: "http (snd (legistar_links links cfg ws we meetings v)) = http v
         \<and> str_of (snd (legistar_links links cfg ws we meetings v)) = str_of v"
    for links meetings v
    by (induction links arbitrary: meetings v)
       (simp_all add: parse_legistar_meeting_def datetime_now_def Let_def split_beta
          split: sum.splits)
  show "str_of (snd (scrape_source key cfg ws we w)) = str_of w"
    by (simp add: scrape_source_def scrape_granicus_def scrape_legistar_def session_get_def
          split_beta l split: sum.splits)
  from l show "http (snd (scrape_source key cfg ws we w))
     = (if contains (base_url cfg) ''granicus'' \<or> contains (base_url cfg) ''legistar''
        then (\<lambda>k. http w (Suc k)) else http w)"
    by (simp add: scrape_source_def scrape_granicus_def scrape_legistar_def session_get_def
          split_beta split: sum.splits)
qed

lemma scrape_loop_step:
  "scrape_loop ((key, cfg) # rest) ws we all_meetings w
     = scrape_loop rest ws we
         (all_meetings @ source_records cfg ws we w (http w 0 (source_url cfg)))
         (snd (scrape_source key cfg ws we w))"
  using scrape_source_records(1) [of key cfg ws we w]
  by (cases "scrape_source key cfg ws we w") auto

lemma source_records_world:
  assumes "contains (base_url cfg) ''granicus'' \<or> clock w = clock w'"
    and "str_of w = str_of w'"
  shows "source_records cfg ws we w page = source_records cfg ws we w' page"
  using assms legistar_links_clock [of w w']
  by (auto simp: source_records_def split: sum.splits)

text \<open>
  Claim C5. The list that \<^verbatim>\<open>scrape_weekly_meetings\<close> returns is the records of the three
  sources one after the other, where the records of a source depend on the outcome of
  its own fetch only: none when the fetch raised, the records parsed from its page
  otherwise. So a source that fails adds nothing, the other sources are not affected, and
  the length of the result is the sum of the numbers of records of the sources whose
  fetch succeeded. The function returns a list in every world: it has no exception left
  to raise.
\<close>

theorem aggregator_isolates_sources:
  "(let page = (\<lambda>i. http w i (source_url (snd (sources ! i))));
        records = (\<lambda>i. source_records (snd (sources ! i)) ws we w (page i))
    in fst (scrape_weekly_meetings ws we w) = records 0 @ records 1 @ records 2
       \<and> length (fst (scrape_weekly_meetings ws we w))
           = (\<Sum>i \<leftarrow> [0, 1, 2]. case page i of Inl e \<Rightarrow> 0 | Inr soup \<Rightarrow> length (records i))
       \<and> (\<forall>i. (\<exists>e. page i = Inl e) \<longrightarrow> records i = []))"
proof -
  define c0 c1 c2 where "c0 = snd (sources ! 0)" and "c1 = snd (sources ! 1)"
    and "c2 = snd (sources ! 2)"
  define w1 where "w1 = snd (scrape_source ''county_supervisors'' c0 ws we w)"
  define w2 where "w2 = snd (scrape_source ''bakersfield_council'' c1 ws we w1)"
  have urls: "contains (base_url c0) ''granicus''" "\<not> contains (base_url c0) ''legistar''"
    "\<not> contains (base_url c1) ''granicus''" "contains (base_url c1) ''legistar''"
    "contains (base_url c2) ''granicus''"
    by (simp_all add: c0_def c1_def c2_def sources_def)
  have src: "sources = [(''county_supervisors'', c0), (''bakersfield_council'', c1),
                        (''planning_commission'', c2)]"
    by (simp add: c0_def c1_def c2_def sources_def)
  have w1: "clock w1 = clock w" "http w1 = (\<lambda>k. http w (k + 1))"
    using scrape_source_records(2,3) [of "''county_supervisors''" c0 ws we w] urls
    by (simp_all add: w1_def)
  have w2: "http w2 = (\<lambda>k. http w (k + 2))"
    using scrape_source_records(3) [of "''bakersfield_council''" c1 ws we w1] urls w1
    by (simp add: w2_def)
  have s1: "str_of w1 = str_of w"
    by (simp add: w1_def scrape_source_records(4))
  have s2: "str_of w2 = str_of w"
    by (simp add: w2_def scrape_source_records(4) s1)
  have r1: "source_records c1 ws we w1 page = source_records c1 ws we w page" for page
    using source_records_world [of c1 w1 w] w1 s1 by simp
  have r2: "source_records c2 ws we w2 page = source_records c2 ws we w page" for page
    using source_records_world [of c2 w2 w] urls s2 by simp
  have all: "fst (scrape_weekly_meetings ws we w)
      = source_records c0 ws we w (http w 0 (source_url c0))
      @ source_records c1 ws we w (http w 1 (source_url c1))
      @ source_records c2 ws we w (http w 2 (source_url c2))"
    by (simp add: scrape_weekly_meetings_def src scrape_loop_step w1 w2 r1 r2
          numeral_2_eq_2 del: scrape_loop.simps(2) flip: w1_def w2_def)
  have empty: "source_records cfg ws we w (Inl e) = []" for cfg e
    by (simp add: source_records_def)
  have nth: "snd (sources ! 0) = c0" "snd (sources ! 1) = c1" "snd (sources ! 2) = c2"
    "snd (sources ! Suc 0) = c1"
    by (simp_all add: c0_def c1_def c2_def)
  show ?thesis
    unfolding Let_def nth
  proof (intro conjI allI impI)
    show "fst (scrape_weekly_meetings ws we w)
      = source_records c0 ws we w (http w 0 (source_url c0))
      @ source_records c1 ws we w (http w 1 (source_url c1))
      @ source_records c2 ws we w (http w 2 (source_url c2))"
      by (rule all)
    show "length (fst (scrape_weekly_meetings ws we w))
      = (\<Sum>i \<leftarrow> [0, 1, 2]. case http w i (source_url (snd (sources ! i))) of
            Inl e \<Rightarrow> 0
          | Inr soup \<Rightarrow>
              length (source_records (snd (sources ! i)) ws we w
                        (http w i (source_url (snd (sources ! i))))))"
      by (simp add: all nth empty split: sum.splits)
    fix i
    assume "\<exists>e. http w i (source_url (snd (sources ! i))) = Inl e"
    then show "source_records (snd (sources ! i)) ws we w
                 (http w i (source_url (snd (sources ! i)))) = []"
      by (auto simp: empty)
  qed
qed

theorem aggregator_isolates_sources_witness:
  "(\<exists>e. http outage_world 1 (source_url (snd (sources ! 1))) = Inl e)
   \<and> source_records (snd (sources ! 1)) (naive 2025 3 10 0 0 0) (naive 2025 3 16 0 0 0)
        outage_world (http outage_world 1 (source_url (snd (sources ! 1)))) = []
   \<and> length (fst (scrape_weekly_meetings (naive 2025 3 10 0 0 0) (naive 2025 3 16 0 0 0)
                     outage_world)) = 2"
proof -
  have p0: "http outage_world 0 (source_url (snd (sources ! 0))) = Inr granicus_page"
    and p1: "http outage_world 1 (source_url (snd (sources ! 1))) = Inl RequestException"
    and p2: "http outage_world 2 (source_url (snd (sources ! 2))) = Inr granicus_page"
    and p1': "http outage_world (Suc 0) (source_url (snd (sources ! Suc 0)))
                = Inl RequestException"
    by (simp_all add: outage_world_def sources_def source_url_def)
  have fd: "find_date_text meeting_row = Inr (Some ''3/15/2025'')"
    by (simp add: meeting_row_def html_evals parse_evals)
  have sp: "strptime_mdY (strip ''3/15/2025'') = Inr (naive 2025 3 15 0 0 0)"
    by (simp add: string_evals parse_evals naive_def)
  have rows: "find_all_meeting_rows granicus_page = [meeting_row]"
    by (simp add: find_all_meeting_rows_def granicus_page_def meeting_row_def string_evals)
  have one: "length (granicus_rows to_str [meeting_row] cfg (naive 2025 3 10 0 0 0)
                       (naive 2025 3 16 0 0 0) []) = 1" for cfg to_str
    using parse_granicus_meeting_in_week
      [OF fd sp in_week_example, where cfg = cfg and to_str = to_str]
    by auto
  have g: "contains (base_url (snd (sources ! 0))) ''granicus''"
    "contains (base_url (snd (sources ! 2))) ''granicus''"
    by (simp_all add: sources_def)
  have r0: "length (source_records (snd (sources ! 0)) (naive 2025 3 10 0 0 0)
                      (naive 2025 3 16 0 0 0) outage_world (Inr granicus_page)) = 1"
    and r2: "length (source_records (snd (sources ! 2)) (naive 2025 3 10 0 0 0)
                      (naive 2025 3 16 0 0 0) outage_world (Inr granicus_page)) = 1"
    using g by (simp_all add: source_records_def rows one del: granicus_rows.simps)
  from aggregator_isolates_sources [of outage_world "naive 2025 3 10 0 0 0"
      "naive 2025 3 16 0 0 0"]
  show ?thesis
    by (simp add: Let_def p0 p1' p2 r0 r2 source_records_def [of _ _ _ _ "Inl _"])
qed

section \<open>Properties of the summarizers\<close>

text \<open>
  Claim C6, as amended. For a meeting that has the keys \<^verbatim>\<open>agency\<close> and \<^verbatim>\<open>date\<close>,
  \<^verbatim>\<open>_summarize_agenda\<close> and \<^verbatim>\<open>_summarize_minutes\<close> return a string in every world;
  and when the completion call of the summarizer raises, \<^verbatim>\<open>_summarize_agenda\<close> returns
  \<^verbatim>\<open>"Summary unavailable - please check the agenda directly."\<close> and
  \<^verbatim>\<open>_summarize_minutes\<close> returns \<^verbatim>\<open>"Summary unavailable."\<close>. For a meeting without
  the key \<^verbatim>\<open>agency\<close> both raise \<^verbatim>\<open>KeyError('agency')\<close>, and for a meeting with that
  key and without the key \<^verbatim>\<open>date\<close> both raise \<^verbatim>\<open>KeyError('date')\<close>; in either case no
  completion call is made (the world is left as it was).
\<close>

theorem summarizers_fallback:
  "(meeting ''agency'' = Some a \<and> meeting ''date'' = Some d \<longrightarrow>
      (\<exists>s. fst (summarize_agenda meeting w) = Inr s)
      \<and> (\<exists>s. fst (summarize_minutes meeting w) = Inr s)
      \<and> ((\<exists>e. remote w 0 (agenda_request a d meeting) = Inl e) \<longrightarrow>
            fst (summarize_agenda meeting w)
              = Inr ''Summary unavailable - please check the agenda directly.'')
      \<and> ((\<exists>e. remote w 0 (minutes_request a d meeting) = Inl e) \<longrightarrow>
            fst (summarize_minutes meeting w) = Inr ''Summary unavailable.''))
   \<and> (meeting ''agency'' = None \<longrightarrow>
      summarize_agenda meeting w = (Inl (KeyError ''agency''), w)
      \<and> summarize_minutes meeting w = (Inl (KeyError ''agency''), w))
   \<and> (meeting ''agency'' \<noteq> None \<and> meeting ''date'' = None \<longrightarrow>
      summarize_agenda meeting w = (Inl (KeyError ''date''), w)
      \<and> summarize_minutes meeting w = (Inl (KeyError ''date''), w))"
proof (intro conjI impI)
  assume k: "meeting ''agency'' = Some a \<and> meeting ''date'' = Some d"
  then show "\<exists>s. fst (summarize_agenda meeting w) = Inr s"
    by (simp add: summarize_agenda_def getitem_def split_beta)
  from k show "\<exists>s. fst (summarize_minutes meeting w) = Inr s"
    by (simp add: summarize_minutes_def getitem_def split_beta)
  {
    assume "\<exists>e. remote w 0 (agenda_request a d meeting) = Inl e"
    then obtain e where "remote w 0 (agenda_request a d meeting) = Inl e" ..
    with k show "fst (summarize_agenda meeting w)
                 = Inr ''Summary unavailable - please check the agenda directly.''"
      by (simp add: summarize_agenda_def getitem_def chat_completions_create_def
            first_content_def try_except_def)
  }
  {
    assume "\<exists>e. remote w 0 (minutes_request a d meeting) = Inl e"
    then obtain e where "remote w 0 (minutes_request a d meeting) = Inl e" ..
    with k show "fst (summarize_minutes meeting w) = Inr ''Summary unavailable.''"
      by (simp add: summarize_minutes_def getitem_def chat_completions_create_def
            first_content_def try_except_def)
  }
next
  assume "meeting ''agency'' = None"
  then show "summarize_agenda meeting w = (Inl (KeyError ''agency''), w)"
    and "summarize_minutes meeting w = (Inl (KeyError ''agency''), w)"
    by (simp_all add: summarize_agenda_def summarize_minutes_def getitem_def)
next
  assume "meeting ''agency'' \<noteq> None \<and> meeting ''date'' = None"
  then show "summarize_agenda meeting w = (Inl (KeyError ''date''), w)"
    and "summarize_minutes meeting w = (Inl (KeyError ''date''), w)"
    by (auto simp: summarize_agenda_def summarize_minutes_def getitem_def)
qed

text \<open>
  The theorem at a record of the Granicus parser, at a record without an agency and at
  a record without a date, in a world where every completion call raises.
\<close>

theorem summarizers_fallback_witness:
  "sample_meeting ''agency'' = Some (Str ''Kern County Board of Supervisors'')
   \<and> sample_meeting ''date'' = Some (Str ''2025-03-15T00:00:00'')
   \<and> (\<forall>req. remote failing_world 0 req = Inl APIError)
   \<and> fst (summarize_agenda sample_meeting failing_world)
        = Inr ''Summary unavailable - please check the agenda directly.''
   \<and> fst (summarize_minutes sample_meeting failing_world) = Inr ''Summary unavailable.''
   \<and> nameless_meeting ''agency'' = None
   \<and> summarize_agenda nameless_meeting failing_world
        = (Inl (KeyError ''agency''), failing_world)
   \<and> summarize_minutes nameless_meeting failing_world
        = (Inl (KeyError ''agency''), failing_world)
   \<and> undated_meeting ''agency'' = Some (Str ''Bakersfield City Council'')
   \<and> undated_meeting ''date'' = None
   \<and> summarize_agenda undated_meeting failing_world
        = (Inl (KeyError ''date''), failing_world)
   \<and> summarize_minutes undated_meeting failing_world
        = (Inl (KeyError ''date''), failing_world)"
proof -
  have a: "sample_meeting ''agency'' = Some (Str ''Kern County Board of Supervisors'')"
    and d: "sample_meeting ''date'' = Some (Str ''2025-03-15T00:00:00'')"
    by (simp_all add: sample_meeting_def)
  have r: "\<forall>req. remote failing_world 0 req = Inl APIError"
    by (simp add: failing_world_def)
  have n: "nameless_meeting ''agency'' = None"
    by (simp add: nameless_meeting_def)
  have u: "undated_meeting ''agency'' = Some (Str ''Bakersfield City Council'')"
    "undated_meeting ''date'' = None"
    by (simp_all add: undated_meeting_def)
  from summarizers_fallback [where meeting = sample_meeting and w = failing_world
      and a = "Str ''Kern County Board of Supervisors''"
      and d = "Str ''2025-03-15T00:00:00''"] a d r
  have s: "fst (summarize_agenda sample_meeting failing_world)
        = Inr ''Summary unavailable - please check the agenda directly.''"
    "fst (summarize_minutes sample_meeting failing_world) = Inr ''Summary unavailable.''"
    by blast+
  from summarizers_fallback [where meeting = nameless_meeting and w = failing_world] n
  have k: "summarize_agenda nameless_meeting failing_world
        = (Inl (KeyError ''agency''), failing_world)"
    "summarize_minutes nameless_meeting failing_world
        = (Inl (KeyError ''agency''), failing_world)"
    by blast+
  from summarizers_fallback [where meeting = undated_meeting and w = failing_world] u
  have t: "summarize_agenda undated_meeting failing_world
        = (Inl (KeyError ''date''), failing_world)"
    "summarize_minutes undated_meeting failing_world
        = (Inl (KeyError ''date''), failing_world)"
    by simp_all
  from a d r s n k u t show ?thesis by blast
qed

text \<open>
  Claim C6 as stated fails: a meeting without the key \<^verbatim>\<open>agency\<close> makes both
  summarizers raise \<^verbatim>\<open>KeyError\<close>, since the prompt is built before the \<^verbatim>\<open>try\<close>.
\<close>

theorem summarizer_raises_without_agency:
  "fst (summarize_agenda [''date'' \<mapsto> Str ''2025-03-15T00:00:00''] failing_world)
     = Inl (KeyError ''agency'')
   \<and> fst (summarize_minutes [''date'' \<mapsto> Str ''2025-03-15T00:00:00''] failing_world)
     = Inl (KeyError ''agency'')"
  by (simp add: summarize_agenda_def summarize_minutes_def getitem_def)

section \<open>Properties of the theme analysis\<close>

lemmas json_evals =
  json_loads_def skip_ws_def json_space_def scan_atom_def literal_def scan_number_def
  minus_sign_def int_part_def frac_part_def exp_sign_def exp_part_def digits_then_def
  isdigit_def

lemma reply_not_json:
  "json_loads line_reply = Inl JSONDecodeError"
  "json_loads ''No meetings were provided.'' = Inl JSONDecodeError"
  by (simp_all add: json_evals nl_def line_reply_def)

lemma strip_reply: "strip line_reply = ''No meetings were provided.''"
  by (simp add: string_evals nl_def line_reply_def)

text \<open>
  Claim C7, as amended. When the text of the reply, stripped of the white space around
  it, is not valid JSON, \<^verbatim>\<open>_find_common_themes\<close> returns a list of one theme whose
  \<^verbatim>\<open>description\<close> is the stripped text; and when the completion call raises it returns
  the empty list. (The meetings all have the key \<^verbatim>\<open>agency\<close>, so that the prompt can be
  built.)
\<close>

theorem theme_extraction_fallback:
  assumes "content_lines meetings_data = Inr ls"
  shows "((\<exists>e. remote w 0 (themes_request ls) = Inl e) \<longrightarrow>
            fst (find_common_themes meetings_data w) = Inr (JArray []))
       \<and> (\<forall>raw more.
            remote w 0 (themes_request ls) = Inr (Some raw # more)
            \<and> (\<exists>e. json_loads (strip raw) = Inl e) \<longrightarrow>
            fst (find_common_themes meetings_data w)
              = Inr (JArray [JObject [(''theme'', JString ''Multi-Agency Coordination''),
                                      (''description'', JString (strip raw))]]))"
proof (intro conjI allI impI)
  assume "\<exists>e. remote w 0 (themes_request ls) = Inl e"
  then obtain e where "remote w 0 (themes_request ls) = Inl e" ..
  with assms show "fst (find_common_themes meetings_data w) = Inr (JArray [])"
    by (simp add: find_common_themes_def chat_completions_create_def first_content_def)
next
  fix raw more
  assume "remote w 0 (themes_request ls) = Inr (Some raw # more)
          \<and> (\<exists>e. json_loads (strip raw) = Inl e)"
  then obtain e where "remote w 0 (themes_request ls) = Inr (Some raw # more)"
    and "json_loads (strip raw) = Inl e"
    by blast
  with assms show "fst (find_common_themes meetings_data w)
      = Inr (JArray [JObject [(''theme'', JString ''Multi-Agency Coordination''),
                              (''description'', JString (strip raw))]])"
    by (simp add: find_common_themes_def chat_completions_create_def first_content_def
          themes_of_content_def try_except_def)
qed

theorem theme_extraction_fallback_witness:
  "content_lines [] = Inr []
   \<and> remote reply_world 0 (themes_request [])
        = Inr [Some line_reply]
   \<and> json_loads (strip line_reply) = Inl JSONDecodeError
   \<and> fst (find_common_themes [] reply_world)
        = Inr (JArray [JObject [(''theme'', JString ''Multi-Agency Coordination''),
                                (''description'', JString ''No meetings were provided.'')]])
   \<and> remote failing_world 0 (themes_request []) = Inl APIError
   \<and> fst (find_common_themes [] failing_world) = Inr (JArray [])"
proof -
  have c: "content_lines [] = Inr []" by simp
  have r: "remote reply_world 0 (themes_request [])
             = Inr [Some line_reply]"
    by (simp add: reply_world_def)
  have j: "json_loads (strip line_reply) = Inl JSONDecodeError"
    by (simp add: strip_reply reply_not_json)
  have f: "remote failing_world 0 (themes_request []) = Inl APIError"
    by (simp add: failing_world_def)
  from theme_extraction_fallback [OF c, of reply_world]
    theme_extraction_fallback [OF c, of failing_world] r j f
  show ?thesis
    by (simp add: strip_reply)
qed

text \<open>
  Claim C7 as stated fails: the reply \<^verbatim>\<open>No meetings were provided.\<close> with a line feed
  after it is not valid JSON, and the \<^verbatim>\<open>description\<close> of the theme is the reply
  without the line feed, not the reply as it came.
\<close>

theorem theme_description_is_stripped:
  "remote reply_world 0 (themes_request []) = Inr [Some line_reply]
   \<and> json_loads line_reply = Inl JSONDecodeError
   \<and> fst (find_common_themes [] reply_world)
        = Inr (JArray [JObject [(''theme'', JString ''Multi-Agency Coordination''),
                                (''description'', JString ''No meetings were provided.'')]])
   \<and> ''No meetings were provided.'' \<noteq> line_reply"
proof -
  have "''No meetings were provided.'' \<noteq> line_reply"
    by (simp add: line_reply_def nl_def)
  then show ?thesis
    by (simp add: find_common_themes_def chat_completions_create_def first_content_def
          themes_of_content_def try_except_def reply_world_def strip_reply reply_not_json)
qed

section \<open>The records of the two parsers\<close>

text \<open>
  Claim C8, as amended. A record of the Granicus parser has the agency, a date that
  \<^verbatim>\<open>isoformat()\<close> wrote for the naive value \<open>d\<close> that \<^verbatim>\<open>strptime\<close> returned (an ISO 8601
  timestamp \<^verbatim>\<open>YYYY-MM-DDTHH:MM:SS\<close>, which \<^verbatim>\<open>fromisoformat\<close> reads back as \<open>d\<close>), the
  type \<^verbatim>\<open>"Regular Meeting"\<close>, an \<^verbatim>\<open>agenda_url\<close> that is \<^verbatim>\<open>None\<close> or a string, what
  \<^verbatim>\<open>str\<close> gives for the element as \<^verbatim>\<open>raw_content\<close> and the source \<^verbatim>\<open>"granicus"\<close>.
  A record of the Legistar parser has the agency, as date what \<^verbatim>\<open>isoformat()\<close> wrote for
  the reading of the clock (an ISO 8601 timestamp that \<^verbatim>\<open>fromisoformat\<close> reads back,
  the reading being a date and a time of day), the type, an \<^verbatim>\<open>agenda_url\<close> that is a
  string, a \<^verbatim>\<open>title\<close> and the source \<^verbatim>\<open>"legistar"\<close>, and it has no \<^verbatim>\<open>raw_content\<close>.
\<close>

theorem parser_record_fields:
  "(parse_granicus_meeting to_str element cfg ws we = Some m \<longrightarrow>
      m ''agency'' = Some (Str (name cfg))
      \<and> (\<exists>d. m ''date'' = Some (Str (isoformat d)) \<and> valid_naive d
            \<and> iso_8601 (isoformat d) \<and> fromisoformat (isoformat d) = Inr d)
      \<and> m ''type'' = Some (Str ''Regular Meeting'')
      \<and> (m ''agenda_url'' = Some NoneVal \<or> (\<exists>u. m ''agenda_url'' = Some (Str u)))
      \<and> m ''raw_content'' = Some (Str (to_str element))
      \<and> m ''source'' = Some (Str ''granicus''))
   \<and> (fst (parse_legistar_meeting element cfg ws we w) = Some m \<longrightarrow>
      m ''agency'' = Some (Str (name cfg))
      \<and> m ''date'' = Some (Str (isoformat (fst (datetime_now w))))
      \<and> (valid_naive (fst (datetime_now w)) \<longrightarrow>
            iso_8601 (isoformat (fst (datetime_now w)))
            \<and> fromisoformat (isoformat (fst (datetime_now w))) = Inr (fst (datetime_now w)))
      \<and> m ''type'' = Some (Str ''Regular Meeting'')
      \<and> (\<exists>u. m ''agenda_url'' = Some (Str u))
      \<and> (\<exists>t. m ''title'' = Some (Str t))
      \<and> m ''raw_content'' = None
      \<and> m ''source'' = Some (Str ''legistar''))"
proof (intro conjI impI)
  assume g: "parse_granicus_meeting to_str element cfg ws we = Some m"
  then obtain t d u where
    d: "strptime_mdY (strip t) = Inr d"
    and u: "agenda_url_of element = Inr u"
    and m: "m = [''agency'' \<mapsto> Str (name cfg), ''date'' \<mapsto> Str (isoformat d),
              ''type'' \<mapsto> Str ''Regular Meeting'', ''agenda_url'' \<mapsto> u,
              ''raw_content'' \<mapsto> Str (to_str element), ''source'' \<mapsto> Str ''granicus'']"
    by (rule parse_granicus_meeting_Some)
  from d have v: "valid_naive d"
    by (rule strptime_valid)
  show "m ''agency'' = Some (Str (name cfg))" by (simp add: m)
  have "m ''date'' = Some (Str (isoformat d))" by (simp add: m)
  with v iso_8601_isoformat [OF v] fromisoformat_isoformat [OF v]
  show "\<exists>d. m ''date'' = Some (Str (isoformat d)) \<and> valid_naive d
      \<and> iso_8601 (isoformat d) \<and> fromisoformat (isoformat d) = Inr d"
    by blast
  show "m ''type'' = Some (Str ''Regular Meeting'')" by (simp add: m)
  show "m ''agenda_url'' = Some NoneVal \<or> (\<exists>u. m ''agenda_url'' = Some (Str u))"
    using agenda_url_of_cases [of element] u by (auto simp: m)
  show "m ''raw_content'' = Some (Str (to_str element))" by (simp add: m)
  show "m ''source'' = Some (Str ''granicus'')" by (simp add: m)
next
  assume l: "fst (parse_legistar_meeting element cfg ws we w) = Some m"
  then obtain href where
    m: "m = [''agency'' \<mapsto> Str (name cfg),
             ''date'' \<mapsto> Str (isoformat (fst (datetime_now w))),
             ''type'' \<mapsto> Str ''Regular Meeting'',
             ''agenda_url'' \<mapsto> Str (base_url cfg @ href),
             ''title'' \<mapsto> Str (strip (get_text element)),
             ''source'' \<mapsto> Str ''legistar'']"
    by (auto simp: parse_legistar_meeting_def Let_def split: sum.splits prod.splits)
  show "m ''agency'' = Some (Str (name cfg))" by (simp add: m)
  show "m ''date'' = Some (Str (isoformat (fst (datetime_now w))))" by (simp add: m)
  show "m ''type'' = Some (Str ''Regular Meeting'')" by (simp add: m)
  show "\<exists>u. m ''agenda_url'' = Some (Str u)" by (simp add: m)
  show "\<exists>t. m ''title'' = Some (Str t)" by (simp add: m)
  show "m ''raw_content'' = None" by (simp add: m)
  show "m ''source'' = Some (Str ''legistar'')" by (simp add: m)
next
  assume "valid_naive (fst (datetime_now w))"
  then show "iso_8601 (isoformat (fst (datetime_now w)))"
    by (rule iso_8601_isoformat)
next
  assume "valid_naive (fst (datetime_now w))"
  then show "fromisoformat (isoformat (fst (datetime_now w))) = Inr (fst (datetime_now w))"
    by (rule fromisoformat_isoformat)
qed

text \<open>
  The theorem at the row \<open>meeting_row\<close> and at the anchor \<open>meeting_link\<close>, read on
  Wednesday 2025-03-12 at 14:30.
\<close>

theorem parser_record_fields_witness:
  "parse_granicus_meeting example_markup meeting_row county_supervisors
      (naive 2025 3 10 0 0 0) (naive 2025 3 16 0 0 0) = Some granicus_sample
   \<and> granicus_sample ''date'' = Some (Str ''2025-03-15T00:00:00'')
   \<and> granicus_sample ''raw_content'' = Some (Str (example_markup meeting_row))
   \<and> granicus_sample ''source'' = Some (Str ''granicus'')
   \<and> fst (parse_legistar_meeting meeting_link bakersfield_council
        (naive 2025 3 10 0 0 0) (naive 2025 3 16 0 0 0) calendar_world) = Some legistar_sample
   \<and> valid_naive (fst (datetime_now calendar_world))
   \<and> isoformat (fst (datetime_now calendar_world)) = ''2025-03-12T14:30:00''
   \<and> legistar_sample ''date'' = Some (Str ''2025-03-12T14:30:00'')
   \<and> iso_8601 ''2025-03-12T14:30:00''
   \<and> fromisoformat ''2025-03-12T14:30:00'' = Inr (naive 2025 3 12 14 30 0)
   \<and> legistar_sample ''raw_content'' = None
   \<and> legistar_sample ''source'' = Some (Str ''legistar'')"
proof -
  have now: "fst (datetime_now calendar_world) = naive 2025 3 12 14 30 0"
    by (simp add: datetime_now_def calendar_world_def naive_def)
  have v: "valid_naive (naive 2025 3 12 14 30 0)"
    by (simp add: valid_naive_def naive_def days_in_month_def DAYS_IN_MONTH_def)
  have iso: "isoformat (naive 2025 3 12 14 30 0) = ''2025-03-12T14:30:00''"
    by (simp add: format_evals)
  have gd: "granicus_sample ''date'' = Some (Str ''2025-03-15T00:00:00'')"
    by (simp add: granicus_sample_def)
  from parse_meeting_row parse_meeting_link
    parser_record_fields [where element = meeting_row and cfg = county_supervisors
      and to_str = example_markup
      and ws = "naive 2025 3 10 0 0 0" and we = "naive 2025 3 16 0 0 0"
      and m = granicus_sample]
    parser_record_fields [where element = meeting_link and cfg = bakersfield_council
      and ws = "naive 2025 3 10 0 0 0" and we = "naive 2025 3 16 0 0 0"
      and w = calendar_world and m = legistar_sample]
  show ?thesis
    unfolding now using v gd by (simp add: iso)
qed

text \<open>
  Claim C8 as stated fails for the Legistar parser: the record it returns for the anchor
  \<open>meeting_link\<close> has no \<^verbatim>\<open>raw_content\<close>.
\<close>

theorem legistar_record_without_raw_content:
  "fst (parse_legistar_meeting meeting_link bakersfield_council
         (naive 2025 3 10 0 0 0) (naive 2025 3 16 0 0 0) calendar_world) \<noteq> None
   \<and> the (fst (parse_legistar_meeting meeting_link bakersfield_council
         (naive 2025 3 10 0 0 0) (naive 2025 3 16 0 0 0) calendar_world)) ''raw_content''
       = None"
  by (simp add: parse_meeting_link legistar_sample_def)

section \<open>The bundle of an empty list\<close>

text \<open>
  Claim C9, as amended. For the empty list \<^verbatim>\<open>process_meetings\<close> returns, in every world,
  a bundle with \<^verbatim>\<open>total_meetings = 0\<close> and empty \<^verbatim>\<open>upcoming_meetings\<close> and
  \<^verbatim>\<open>recent_minutes\<close>. It sends one request, the theme prompt with empty content, and the
  \<^verbatim>\<open>themes\<close> are what the theme analysis makes of the reply: the empty list when the call
  raises or the reply has no text, the decoded reply when it is JSON, and one theme that
  holds the reply otherwise.
\<close>

theorem empty_input_bundle:
  "process_meetings [] w =
     (Inr \<lparr>upcoming_meetings = [],
           recent_minutes = [],
           themes = (case first_content (remote w 0 (themes_request [])) of
                       Inl e \<Rightarrow> JArray []
                     | Inr reply \<Rightarrow> themes_of_content reply),
           total_meetings = 0\<rparr>,
      w\<lparr>remote := \<lambda>k. remote w (Suc k)\<rparr>)
   \<and> content (themes_request []) = themes_prompt []"
  by (simp add: process_meetings_def process_upcoming_meetings_def
        process_recent_meetings_def find_common_themes_def chat_completions_create_def
        themes_request_def)

text \<open>
  Claim C9 as stated fails: when the endpoint answers the empty prompt with a sentence,
  the bundle of the empty list has one theme.
\<close>

theorem empty_input_with_theme:
  "fst (process_meetings [] reply_world) =
     Inr \<lparr>upcoming_meetings = [],
          recent_minutes = [],
          themes = JArray [JObject [(''theme'', JString ''Multi-Agency Coordination''),
                                    (''description'', JString ''No meetings were provided.'')]],
          total_meetings = 0\<rparr>
   \<and> JArray [JObject [(''theme'', JString ''Multi-Agency Coordination''),
                       (''description'', JString ''No meetings were provided.'')]]
       \<noteq> JArray []"
  by (simp add: process_meetings_def process_upcoming_meetings_def
        process_recent_meetings_def find_common_themes_def chat_completions_create_def
        first_content_def themes_of_content_def try_except_def reply_world_def
        strip_reply reply_not_json)

section \<open>The counts of the bundle\<close>

lemma process_meetings_bundle:
  assumes "fst (find_common_themes ms
                  (snd (process_recent_meetings (fst (select_meetings False ms
                          (snd (select_meetings True ms w))))
                     (snd (process_upcoming_meetings (fst (select_meetings True ms w))
                            (snd (select_meetings False ms (snd (select_meetings True ms w))))))))
             ) = r"
  shows "fst (process_meetings ms w) =
     (case r of
        Inl e \<Rightarrow> Inl e
      | Inr ths \<Rightarrow>
          Inr \<lparr>upcoming_meetings =
                  fst (process_upcoming_meetings (fst (select_meetings True ms w))
                         (snd (select_meetings False ms (snd (select_meetings True ms w))))),
                recent_minutes =
                  fst (process_recent_meetings
                         (fst (select_meetings False ms (snd (select_meetings True ms w))))
                         (snd (process_upcoming_meetings (fst (select_meetings True ms w))
                                 (snd (select_meetings False ms
                                         (snd (select_meetings True ms w))))))),
                themes = ths,
                total_meetings = length ms\<rparr>)"
  using assms
  by (auto simp: process_meetings_def split_beta split: sum.splits prod.splits)

text \<open>
  Claim C10, as amended. When every record has the key \<^verbatim>\<open>agency\<close>, \<^verbatim>\<open>process_meetings\<close>
  returns a bundle whose \<^verbatim>\<open>total_meetings\<close> is the length of the input, and each of
  \<^verbatim>\<open>upcoming_meetings\<close> and \<^verbatim>\<open>recent_minutes\<close> is at most that long. When
  \<^verbatim>\<open>_is_upcoming\<close> returns for every record the same value in the second list
  comprehension as in the first, the two lengths together are at most
  \<^verbatim>\<open>total_meetings\<close>; and it does so whenever no record is upcoming at one and not at
  another of the first \<open>2 * length meetings_data\<close> readings of the clock, which are all
  that the two list comprehensions can take. When a record has no \<^verbatim>\<open>agency\<close>,
  \<^verbatim>\<open>process_meetings\<close> raises \<^verbatim>\<open>KeyError\<close>.
\<close>

theorem bundle_counts:
  "(if \<forall>m \<in> set meetings_data. m ''agency'' \<noteq> None
    then \<exists>b. fst (process_meetings meetings_data w) = Inr b
            \<and> total_meetings b = length meetings_data
            \<and> length (upcoming_meetings b) \<le> length meetings_data
            \<and> length (recent_minutes b) \<le> length meetings_data
            \<and> (fst (verdicts meetings_data (snd (verdicts meetings_data w)))
                  = fst (verdicts meetings_data w) \<longrightarrow>
                  length (upcoming_meetings b) + length (recent_minutes b)
                    \<le> length meetings_data)
            \<and> ((\<forall>m \<in> set meetings_data. \<forall>k < 2 * length meetings_data.
                    upcoming_at (clock w k) m = upcoming_at (clock w 0) m) \<longrightarrow>
                  fst (verdicts meetings_data (snd (verdicts meetings_data w)))
                    = fst (verdicts meetings_data w)
                  \<and> length (upcoming_meetings b) + length (recent_minutes b)
                    \<le> length meetings_data)
    else fst (process_meetings meetings_data w) = Inl (KeyError ''agency''))"
proof (cases "\<forall>m \<in> set meetings_data. m ''agency'' \<noteq> None")
  case False
  then have "\<exists>m \<in> set meetings_data. m ''agency'' = None" by simp
  from find_common_themes_missing [OF this] False show ?thesis
    by (simp add: process_meetings_bundle [OF refl])
next
  case True
  define w1 where "w1 = snd (select_meetings True meetings_data w)"
  define w2 where "w2 = snd (select_meetings False meetings_data w1)"
  define upcoming where "upcoming = fst (select_meetings True meetings_data w)"
  define recent where "recent = fst (select_meetings False meetings_data w1)"
  define w3 where "w3 = snd (process_upcoming_meetings upcoming w2)"
  define w4 where "w4 = snd (process_recent_meetings recent w3)"
  define pu where "pu = fst (process_upcoming_meetings upcoming w2)"
  define pr where "pr = fst (process_recent_meetings recent w3)"
  from find_common_themes_present [OF True, of w4]
  obtain ths where ths: "fst (find_common_themes meetings_data w4) = Inr ths" ..
  let ?b = "\<lparr>upcoming_meetings = pu, recent_minutes = pr, themes = ths,
             total_meetings = length meetings_data\<rparr>"
  have b: "fst (process_meetings meetings_data w) = Inr ?b"
    using ths
    by (simp add: process_meetings_bundle [OF refl] w1_def w2_def w3_def w4_def
          upcoming_def recent_def pu_def pr_def)
  have lu: "length pu \<le> length upcoming"
    using process_upcoming_loop_length [of upcoming "[]" w2]
    by (simp add: pu_def process_upcoming_meetings_def)
  have lr: "length pr \<le> length recent"
    using process_recent_loop_length [of recent "[]" w3]
    by (simp add: pr_def process_recent_meetings_def)
  have u: "length upcoming \<le> length meetings_data"
    and r: "length recent \<le> length meetings_data"
    by (simp_all add: upcoming_def recent_def select_meetings_length)
  have w1: "w1 = snd (verdicts meetings_data w)"
    by (simp add: w1_def select_meetings_verdicts)
  have sum: "length pu + length pr \<le> length meetings_data"
    if eq: "fst (verdicts meetings_data (snd (verdicts meetings_data w)))
              = fst (verdicts meetings_data w)"
  proof -
    define z where "z = zip meetings_data (fst (verdicts meetings_data w))"
    have up: "upcoming = map fst (filter (\<lambda>(m, b). b) z)"
      by (simp add: upcoming_def z_def select_meetings_verdicts)
    have "(\<lambda>(m :: meeting, b). b = False) = (\<lambda>x. \<not> (case x of (m, b) \<Rightarrow> b))"
      by (simp add: fun_eq_iff)
    with eq have re: "recent = map fst (filter (\<lambda>x. \<not> (case x of (m, b) \<Rightarrow> b)) z)"
      by (simp add: recent_def z_def w1 select_meetings_verdicts)
    have "length z = length meetings_data"
      by (simp add: z_def verdicts_length)
    then have "length upcoming + length recent = length meetings_data"
      using sum_length_filter_compl [of "\<lambda>(m, b). b" z]
      by (simp add: up re)
    with lu lr show ?thesis by simp
  qed
  have same: "fst (verdicts meetings_data (snd (verdicts meetings_data w)))
                = fst (verdicts meetings_data w)"
    if st: "\<forall>m \<in> set meetings_data. \<forall>k < 2 * length meetings_data.
              upcoming_at (clock w k) m = upcoming_at (clock w 0) m"
  proof -
    from st have "\<forall>m \<in> set meetings_data. \<forall>k < length meetings_data.
        upcoming_at (clock w k) m = upcoming_at (clock w 0) m"
      by simp
    from verdicts_class [OF this] obtain s where
      v: "fst (verdicts meetings_data w) = map (upcoming_at (clock w 0)) meetings_data"
      and s: "s \<le> length meetings_data" "clock w1 = (\<lambda>k. clock w (k + s))"
      unfolding w1 by blast
    from st s have "\<forall>m \<in> set meetings_data. \<forall>k < length meetings_data.
        upcoming_at (clock w1 k) m = upcoming_at (clock w 0) m"
      by simp
    from verdicts_class [OF this]
    have "fst (verdicts meetings_data w1) = map (upcoming_at (clock w 0)) meetings_data"
      by blast
    with v show ?thesis by (simp add: w1)
  qed
  from True b lu lr u r sum same show ?thesis by simp
qed

lemma is_upcoming_sample:
  "is_upcoming sample_meeting w =
     (lex_less (naive_key ((clock w 0)\<lparr>tzinfo := None\<rparr>)) (naive_key (naive 2025 3 15 0 0 0)),
      w\<lparr>clock := \<lambda>k. clock w (Suc k)\<rparr>)"
proof -
  have d: "getitem sample_meeting ''date'' = Inr (Str ''2025-03-15T00:00:00'')"
    by (simp add: getitem_def sample_meeting_def)
  show ?thesis
    by (simp add: is_upcoming_def d sample_date_parses datetime_now_def dt_greater_def
          dt_less_def try_except_def naive_def)
qed

lemma sample_entries:
  "upcoming_entry sample_meeting ''Summary unavailable - please check the agenda directly.''
     = Inr sample_upcoming_entry"
  "recent_entry sample_meeting ''Summary unavailable.'' = Inr sample_recent_entry"
  by (simp_all add: upcoming_entry_def recent_entry_def getitem_def get_default_def
      sample_meeting_def sample_upcoming_entry_def sample_recent_entry_def)

lemma sample_keys:
  "sample_meeting ''agency'' = Some (Str ''Kern County Board of Supervisors'')"
  "sample_meeting ''date'' = Some (Str ''2025-03-15T00:00:00'')"
  by (simp_all add: sample_meeting_def)

lemma upcoming_at_ticking:
  "upcoming_at (clock ticking_world k) sample_meeting"
  "\<not> upcoming_at (clock ticking_world k) undated_meeting"
  by (simp_all add: upcoming_at_def sample_keys sample_date_parses dt_greater_def dt_less_def
      try_except_def naive_key_def naive_def ticking_world_def undated_meeting_def)

text \<open>
  The theorem at a record that is upcoming and a record without a date, in a world whose
  clock moves on between the readings: the record without a date is dropped.
\<close>

theorem bundle_counts_witness:
  "sample_meeting ''agency'' \<noteq> None \<and> undated_meeting ''agency'' \<noteq> None
   \<and> clock ticking_world 0 \<noteq> clock ticking_world 1
   \<and> (\<forall>k. upcoming_at (clock ticking_world k) sample_meeting)
   \<and> (\<forall>k. \<not> upcoming_at (clock ticking_world k) undated_meeting)
   \<and> fst (verdicts [sample_meeting, undated_meeting] ticking_world) = [True, False]
   \<and> fst (verdicts [sample_meeting, undated_meeting]
            (snd (verdicts [sample_meeting, undated_meeting] ticking_world)))
       = [True, False]
   \<and> fst (process_meetings [sample_meeting, undated_meeting] ticking_world)
       = Inr \<lparr>upcoming_meetings = [sample_upcoming_entry],
               recent_minutes = [],
               themes = JArray [],
               total_meetings = 2\<rparr>
   \<and> length [sample_upcoming_entry] + length ([] :: meeting list)
       < length [sample_meeting, undated_meeting]"
proof -
  let ?ms = "[sample_meeting, undated_meeting]"
  have keys: "sample_meeting ''agency'' \<noteq> None" "undated_meeting ''agency'' \<noteq> None"
    by (simp_all add: sample_meeting_def undated_meeting_def)
  then have allkeys: "\<forall>m \<in> set ?ms. m ''agency'' \<noteq> None"
    by simp
  have tick: "clock ticking_world 0 \<noteq> clock ticking_world 1"
    by (simp add: ticking_world_def naive_def)
  have same: "upcoming_at (clock ticking_world k) m = upcoming_at (clock ticking_world 0) m"
    if "m \<in> set ?ms" for m k
    using that upcoming_at_ticking [of k] upcoming_at_ticking [of 0] by auto
  then have st: "\<forall>m \<in> set ?ms. \<forall>k < 2 * length ?ms.
      upcoming_at (clock ticking_world k) m = upcoming_at (clock ticking_world 0) m"
    by blast
  from same have "\<forall>m \<in> set ?ms. \<forall>k < length ?ms.
      upcoming_at (clock ticking_world k) m = upcoming_at (clock ticking_world 0) m"
    by blast
  from verdicts_class [OF this]
  have "fst (verdicts ?ms ticking_world) = map (upcoming_at (clock ticking_world 0)) ?ms"
    by blast
  then have v1: "fst (verdicts ?ms ticking_world) = [True, False]"
    by (simp only: list.map upcoming_at_ticking simp_thms)
  define w1 where "w1 = snd (verdicts ?ms ticking_world)"
  define w2 where "w2 = snd (verdicts ?ms w1)"
  from bundle_counts [of ?ms ticking_world, unfolded if_P [OF allkeys]] st
  have "fst (verdicts ?ms (snd (verdicts ?ms ticking_world))) = fst (verdicts ?ms ticking_world)"
    by blast
  then have v2: "fst (verdicts ?ms w1) = [True, False]"
    by (simp only: w1_def v1)
  have s1: "select_meetings True ?ms ticking_world = ([sample_meeting], w1)"
    unfolding select_meetings_verdicts v1 w1_def by simp
  have s2: "select_meetings False ?ms w1 = ([undated_meeting], w2)"
    unfolding select_meetings_verdicts v2 w2_def by simp
  have "remote w1 = remote ticking_world"
    using select_meetings_remote [of True ?ms ticking_world] by (simp only: s1 snd_conv)
  moreover have "remote w2 = remote w1"
    using select_meetings_remote [of False ?ms w1] by (simp only: s2 snd_conv)
  ultimately have r: "remote w2 = (\<lambda>k req. Inl APIError)"
    by (simp add: ticking_world_def)
  have pu: "process_upcoming_meetings [sample_meeting] w2 = ([sample_upcoming_entry], w2)"
    by (simp add: process_upcoming_meetings_def
          failing_world_summaries(1) [OF sample_keys r] sample_entries)
  have sm: "summarize_minutes undated_meeting w2 = (Inl (KeyError ''date''), w2)"
    by (simp add: summarize_minutes_def getitem_def undated_meeting_def)
  have pr: "process_recent_meetings [undated_meeting] w2 = ([], w2)"
    by (simp add: process_recent_meetings_def sm)
  have cl: "content_lines ?ms
      = Inr [''Kern County Board of Supervisors: ''
               @ ''<tr class=meeting><td>3/15/2025</td></tr>'',
             ''Bakersfield City Council: '']"
    by (simp add: getitem_def get_default_def sample_meeting_def undated_meeting_def)
  have pm: "fst (process_meetings ?ms ticking_world)
       = Inr \<lparr>upcoming_meetings = [sample_upcoming_entry],
               recent_minutes = [],
               themes = JArray [],
               total_meetings = 2\<rparr>"
    unfolding process_meetings_def
    by (simp add: split_beta s1 s2 pu pr failing_world_themes [OF cl r]
          del: select_meetings.simps)
  have len: "length [sample_upcoming_entry] + length ([] :: meeting list) < length ?ms"
    by simp
  from keys tick upcoming_at_ticking v1 v2 [unfolded w1_def] pm len show ?thesis
    by blast
qed

text \<open>
  Claim C10 as stated fails twice. A record without the key \<^verbatim>\<open>agency\<close> is not dropped:
  the theme analysis reads the key outside its \<^verbatim>\<open>try\<close> and \<^verbatim>\<open>process_meetings\<close> raises
  \<^verbatim>\<open>KeyError\<close>. And when the clock passes the date of a meeting between the two
  classification passes, the meeting is listed under both \<^verbatim>\<open>upcoming_meetings\<close> and
  \<^verbatim>\<open>recent_minutes\<close>, so that the two lists together are longer than
  \<^verbatim>\<open>total_meetings\<close>.
\<close>

theorem bundle_counts_fail:
  "fst (process_meetings [nameless_meeting] failing_world) = Inl (KeyError ''agency'')
   \<and> fst (process_meetings [sample_meeting] midnight_world)
       = Inr \<lparr>upcoming_meetings = [sample_upcoming_entry],
               recent_minutes = [sample_recent_entry],
               themes = JArray [],
               total_meetings = 1\<rparr>
   \<and> length [sample_upcoming_entry] + length [sample_recent_entry] > length [sample_meeting]"
proof -
  have "\<exists>m \<in> set [nameless_meeting]. m ''agency'' = None"
    by (simp add: nameless_meeting_def)
  from find_common_themes_missing [OF this]
  have 1: "fst (process_meetings [nameless_meeting] failing_world) = Inl (KeyError ''agency'')"
    by (simp add: process_meetings_bundle [OF refl])
  define w1 where "w1 = midnight_world\<lparr>clock := \<lambda>k. clock midnight_world (Suc k)\<rparr>"
  define w2 where "w2 = w1\<lparr>clock := \<lambda>k. clock w1 (Suc k)\<rparr>"
  have s1: "select_meetings True [sample_meeting] midnight_world = ([sample_meeting], w1)"
    by (simp add: is_upcoming_sample w1_def midnight_world_def naive_key_def naive_def)
  have s2: "select_meetings False [sample_meeting] w1 = ([sample_meeting], w2)"
    by (simp add: is_upcoming_sample w2_def w1_def midnight_world_def naive_key_def naive_def)
  have r: "remote w2 = (\<lambda>k req. Inl APIError)"
    by (simp add: w2_def w1_def midnight_world_def)
  have pu: "process_upcoming_meetings [sample_meeting] w2 = ([sample_upcoming_entry], w2)"
    by (simp add: process_upcoming_meetings_def
          failing_world_summaries(1) [OF sample_keys r] sample_entries)
  have pr: "process_recent_meetings [sample_meeting] w2 = ([sample_recent_entry], w2)"
    by (simp add: process_recent_meetings_def
          failing_world_summaries(2) [OF sample_keys r] sample_entries)
  have cl: "content_lines [sample_meeting]
      = Inr [''Kern County Board of Supervisors: ''
               @ ''<tr class=meeting><td>3/15/2025</td></tr>'']"
    by (simp add: getitem_def get_default_def sample_meeting_def)
  have 2: "fst (process_meetings [sample_meeting] midnight_world)
       = Inr \<lparr>upcoming_meetings = [sample_upcoming_entry],
               recent_minutes = [sample_recent_entry],
               themes = JArray [],
               total_meetings = 1\<rparr>"
    unfolding process_meetings_def
    by (simp add: s1 s2 pu pr failing_world_themes [OF cl r] del: select_meetings.simps)
  from 1 2 show ?thesis by simp
qed


end
